theory Spec2Isabelle
  imports Main "HOL-Library.Word" "HOL-Library.Signed_Division"
begin

section \<open>The Go library functions the package calls\<close>

text \<open>
  A Go \<^verbatim>\<open>string\<close> is a sequence of bytes and \<^verbatim>\<open>len\<close> counts bytes; HOL's
  \<open>string\<close> is a list of 8-bit \<open>char\<close>s, so the two coincide and \<^verbatim>\<open>s[:n]\<close> is
  \<open>take n s\<close>.
\<close>

subsection \<open>Package strings\<close>

definition HasPrefix :: "string \<Rightarrow> string \<Rightarrow> bool" where
  "HasPrefix s pre = (length s \<ge> length pre \<and> take (length pre) s = pre)"

definition HasSuffix :: "string \<Rightarrow> string \<Rightarrow> bool" where
  "HasSuffix s suf = (length s \<ge> length suf \<and> drop (length s - length suf) s = suf)"

text \<open>
  \<^verbatim>\<open>strings.ToLower\<close> takes its fast path on a string of ASCII bytes only (every byte
  below \<^verbatim>\<open>utf8.RuneSelf\<close> = 0x80): \<^verbatim>\<open>'A'..'Z'\<close> move by \<^verbatim>\<open>'a' - 'A'\<close>, every
  other byte stays. On any other string it maps \<^verbatim>\<open>unicode.ToLower\<close> over the runes; the
  Unicode tables are not part of this development, so that mapping is the parameter
  \<open>uni\<close>, and every theorem below holds whatever it is.
\<close>

definition isASCII :: "string \<Rightarrow> bool" where
  "isASCII s = list_all (\<lambda>c. (of_char c :: nat) < 128) s"

definition lowerByte :: "char \<Rightarrow> char" where
  "lowerByte c =
    (let n = (of_char c :: nat) in if 65 \<le> n \<and> n \<le> 90 then char_of (n + 32) else c)"

definition ToLower :: "(string \<Rightarrow> string) \<Rightarrow> string \<Rightarrow> string" where
  "ToLower uni s = (if isASCII s then map lowerByte s else uni s)"

subsection \<open>Package strconv\<close>

fun natToDec :: "nat \<Rightarrow> string" where
  "natToDec n =
    (if n < 10 then [char_of (48 + n)]
     else natToDec (n div 10) @ [char_of (48 + n mod 10)])"

definition Itoa :: "int \<Rightarrow> string" where
  "Itoa i = (if i < 0 then CHR ''-'' # natToDec (nat (- i)) else natToDec (nat i))"

subsection \<open>Package encoding/base64, \<^verbatim>\<open>StdEncoding\<close>\<close>

text \<open>
  The standard alphabet with \<^verbatim>\<open>=\<close> padding (RFC 4648, section 4). The 24-bit group
  \<^verbatim>\<open>val\<close> is a Go \<^verbatim>\<open>uint\<close> below \<open>2 ^ 24\<close>, so shifts and masks are written as
  \<open>div\<close> and \<open>mod\<close> on \<open>nat\<close> and nothing wraps.
\<close>

definition encodeStd :: string where
  "encodeStd = ''ABCDEFGHIJKLMNOPQRSTUVWXYZabcdefghijklmnopqrstuvwxyz0123456789+/''"

definition padChar :: char where
  "padChar = CHR ''=''"

definition encodeByte :: "nat \<Rightarrow> char" where
  "encodeByte v = encodeStd ! (v mod 64)"

text \<open>\<^verbatim>\<open>Encode\<close>: whole groups of three bytes, then the remainder of one or two, padded.\<close>

fun EncodeToString :: "string \<Rightarrow> string" where
  "EncodeToString [] = []"
| "EncodeToString [a] =
    (let val = of_char a * 65536
     in [encodeByte (val div 262144), encodeByte (val div 4096), padChar, padChar])"
| "EncodeToString [a, b] =
    (let val = of_char a * 65536 + of_char b * 256
     in [encodeByte (val div 262144), encodeByte (val div 4096), encodeByte (val div 64),
         padChar])"
| "EncodeToString (a # b # c # src) =
    (let val = of_char a * 65536 + of_char b * 256 + of_char c
     in [encodeByte (val div 262144), encodeByte (val div 4096), encodeByte (val div 64),
         encodeByte val] @ EncodeToString src)"

text \<open>
  The decoder's table: \<^verbatim>\<open>decodeMap[encoder[i]] = i\<close>, every other byte invalid (0xFF in
  Go, \<open>None\<close> here).
\<close>

definition decodeMap :: "char \<Rightarrow> nat option" where
  "decodeMap c = map_of (zip encodeStd [0..<length encodeStd]) c"

text \<open>
  The bytes a quantum yields: \<^verbatim>\<open>val\<close> is assembled from the four 6-bit digits, and of
  \<^verbatim>\<open>byte(val>>16), byte(val>>8), byte(val)\<close> the first \<open>dlen - 1\<close> are written.
\<close>

definition quantumBytes :: "nat \<Rightarrow> nat \<Rightarrow> nat \<Rightarrow> nat \<Rightarrow> nat \<Rightarrow> string" where
  "quantumBytes dlen d0 d1 d2 d3 =
    (let val = d0 * 262144 + d1 * 4096 + d2 * 64 + d3
     in take (dlen - 1) [char_of (val div 65536), char_of (val div 256), char_of val])"

text \<open>
  \<^verbatim>\<open>Decode\<close> reads quantum after quantum (\<^verbatim>\<open>decodeQuantum\<close>); its 8- and 4-byte fast
  paths decode the same quanta. The function below works on the input with every
  \<^verbatim>\<open>\r\<close> and \<^verbatim>\<open>\n\<close> already dropped (the decoder skips them wherever they stand) and
  returns the bytes written and whether \<^verbatim>\<open>err == nil\<close>:
  \<^item> end of input at a quantum boundary ends the decoding without error;
  \<^item> a byte outside the alphabet that is not padding, padding in the first two places
    of a quantum, a lone \<^verbatim>\<open>=\<close> in the third place and an input that ends inside a
    quantum are errors, and that quantum writes nothing;
  \<^item> after a padded quantum anything left is trailing garbage: an error, returned
    with the bytes of the padded quantum written.
\<close>

fun decodeQuanta :: "string \<Rightarrow> string \<times> bool" where
  "decodeQuanta [] = ([], True)"
| "decodeQuanta (c0 # c1 # c2 # c3 # src) =
    (case (decodeMap c0, decodeMap c1) of
       (Some d0, Some d1) \<Rightarrow>
         (if c2 = padChar then
            (if c3 = padChar then (quantumBytes 2 d0 d1 0 0, src = []) else ([], False))
          else
            (case decodeMap c2 of
               None \<Rightarrow> ([], False)
             | Some d2 \<Rightarrow>
                 (if c3 = padChar then (quantumBytes 3 d0 d1 d2 0, src = [])
                  else
                    (case decodeMap c3 of
                       None \<Rightarrow> ([], False)
                     | Some d3 \<Rightarrow>
                         (case decodeQuanta src of
                            (dst, ok) \<Rightarrow> (quantumBytes 4 d0 d1 d2 d3 @ dst, ok))))))
     | _ \<Rightarrow> ([], False))"
| "decodeQuanta _ = ([], False)"

definition isNewline :: "char \<Rightarrow> bool" where
  "isNewline c = (c = CHR 0x0A \<or> c = CHR 0x0D)"

text \<open>\<^verbatim>\<open>DecodeString\<close> returns \<^verbatim>\<open>dbuf[:n]\<close> and the error, also when the error is set.\<close>

definition DecodeString :: "string \<Rightarrow> string \<times> bool" where
  "DecodeString s = decodeQuanta (filter (\<lambda>c. \<not> isNewline c) s)"


section \<open>Status/code translation (pkg/messaging/v1/util.go)\<close>

text \<open>
  gRPC status codes are \<^verbatim>\<open>codes.Code\<close>, a \<^verbatim>\<open>uint32\<close>; the named codes are the
  constants 0..16 of google.golang.org/grpc/codes. HTTP status codes are Go \<^verbatim>\<open>int\<close>s;
  they are only compared and printed, never computed with, so they are modelled as \<open>int\<close>.
\<close>

type_synonym Code = "32 word"

definition codes_OK :: Code where "codes_OK = 0"
definition codes_Canceled :: Code where "codes_Canceled = 1"
definition codes_Unknown :: Code where "codes_Unknown = 2"
definition codes_InvalidArgument :: Code where "codes_InvalidArgument = 3"
definition codes_DeadlineExceeded :: Code where "codes_DeadlineExceeded = 4"
definition codes_NotFound :: Code where "codes_NotFound = 5"
definition codes_AlreadyExists :: Code where "codes_AlreadyExists = 6"
definition codes_PermissionDenied :: Code where "codes_PermissionDenied = 7"
definition codes_ResourceExhausted :: Code where "codes_ResourceExhausted = 8"
definition codes_FailedPrecondition :: Code where "codes_FailedPrecondition = 9"
definition codes_Aborted :: Code where "codes_Aborted = 10"
definition codes_OutOfRange :: Code where "codes_OutOfRange = 11"
definition codes_Unimplemented :: Code where "codes_Unimplemented = 12"
definition codes_Internal :: Code where "codes_Internal = 13"
definition codes_Unavailable :: Code where "codes_Unavailable = 14"
definition codes_DataLoss :: Code where "codes_DataLoss = 15"
definition codes_Unauthenticated :: Code where "codes_Unauthenticated = 16"

text \<open>The \<^verbatim>\<open>net/http\<close> status constants the two switches name.\<close>

definition StatusOK :: int where "StatusOK = 200"
definition StatusBadRequest :: int where "StatusBadRequest = 400"
definition StatusUnauthorized :: int where "StatusUnauthorized = 401"
definition StatusForbidden :: int where "StatusForbidden = 403"
definition StatusNotFound :: int where "StatusNotFound = 404"
definition StatusRequestTimeout :: int where "StatusRequestTimeout = 408"
definition StatusConflict :: int where "StatusConflict = 409"
definition StatusTooManyRequests :: int where "StatusTooManyRequests = 429"
definition StatusInternalServerError :: int where "StatusInternalServerError = 500"
definition StatusNotImplemented :: int where "StatusNotImplemented = 501"
definition StatusServiceUnavailable :: int where "StatusServiceUnavailable = 503"
definition StatusGatewayTimeout :: int where "StatusGatewayTimeout = 504"

text \<open>\<^verbatim>\<open>HTTPStatusFromCode\<close>: the switch, case by case in the source's order, then the default.\<close>

definition HTTPStatusFromCode :: "Code \<Rightarrow> int" where
  "HTTPStatusFromCode code =
    (if code = codes_OK then StatusOK
     else if code = codes_Canceled then StatusRequestTimeout
     else if code = codes_Unknown then StatusInternalServerError
     else if code = codes_InvalidArgument then StatusBadRequest
     else if code = codes_DeadlineExceeded then StatusGatewayTimeout
     else if code = codes_NotFound then StatusNotFound
     else if code = codes_AlreadyExists then StatusConflict
     else if code = codes_PermissionDenied then StatusForbidden
     else if code = codes_Unauthenticated then StatusUnauthorized
     else if code = codes_ResourceExhausted then StatusTooManyRequests
     else if code = codes_FailedPrecondition then StatusBadRequest
     else if code = codes_Aborted then StatusConflict
     else if code = codes_OutOfRange then StatusBadRequest
     else if code = codes_Unimplemented then StatusNotImplemented
     else if code = codes_Internal then StatusInternalServerError
     else if code = codes_Unavailable then StatusServiceUnavailable
     else if code = codes_DataLoss then StatusInternalServerError
     else StatusInternalServerError)"

text \<open>\<^verbatim>\<open>CodeFromHTTPStatus\<close>: the 2xx guard, the switch, then the default.\<close>

definition CodeFromHTTPStatus :: "int \<Rightarrow> Code" where
  "CodeFromHTTPStatus httpStatusCode =
    (if httpStatusCode \<ge> 200 \<and> httpStatusCode < 300 then codes_OK
     else if httpStatusCode = StatusRequestTimeout then codes_Canceled
     else if httpStatusCode = StatusInternalServerError then codes_Unknown
     else if httpStatusCode = StatusBadRequest then codes_Internal
     else if httpStatusCode = StatusGatewayTimeout then codes_DeadlineExceeded
     else if httpStatusCode = StatusNotFound then codes_NotFound
     else if httpStatusCode = StatusConflict then codes_AlreadyExists
     else if httpStatusCode = StatusForbidden then codes_PermissionDenied
     else if httpStatusCode = StatusUnauthorized then codes_Unauthenticated
     else if httpStatusCode = StatusTooManyRequests then codes_ResourceExhausted
     else if httpStatusCode = StatusNotImplemented then codes_Unimplemented
     else if httpStatusCode = StatusServiceUnavailable then codes_Unavailable
     else codes_Unknown)"

text \<open>
  A status of google.golang.org/grpc/status: code, message and the details attached so
  far. \<^verbatim>\<open>New\<close> builds one without details. \<^verbatim>\<open>WithDetails\<close> refuses a status with code
  OK and fails when a detail cannot be packed into an \<^verbatim>\<open>Any\<close> (\<^verbatim>\<open>anypb.New\<close>, here the
  parameter \<open>marshal\<close>); otherwise it returns a copy with the packed detail appended.
  \<^verbatim>\<open>Err\<close> is \<^verbatim>\<open>nil\<close> for code OK and the error wrapping the status otherwise; an
  \<^verbatim>\<open>error\<close> is modelled as an option, \<open>None\<close> for \<^verbatim>\<open>nil\<close>.
\<close>

record ErrorInfo =
  Reason :: string
  Domain :: string
  Metadata :: "string \<rightharpoonup> string"

record 'any Status =
  code :: Code
  message :: string
  details :: "'any list"

definition grpcStatus_New :: "Code \<Rightarrow> string \<Rightarrow> 'any Status" where
  "grpcStatus_New c msg = \<lparr>code = c, message = msg, details = []\<rparr>"

definition WithDetails ::
  "(ErrorInfo \<Rightarrow> 'any option) \<Rightarrow> 'any Status \<Rightarrow> ErrorInfo \<Rightarrow> 'any Status option" where
  "WithDetails marshal s detail =
    (if code s = codes_OK then None
     else (case marshal detail of
             None \<Rightarrow> None
           | Some m \<Rightarrow> Some (s\<lparr>details := details s @ [m]\<rparr>)))"

definition Err :: "'any Status \<Rightarrow> 'any Status option" where
  "Err s = (if code s = codes_OK then None else Some s)"

definition maxMetadataValueLen :: nat where "maxMetadataValueLen = 63"
definition errorInfoDomain :: string where "errorInfoDomain = ''dapr.io''"
definition errorInfoHTTPCodeMetadata :: string where "errorInfoHTTPCodeMetadata = ''http.code''"
definition errorInfoHTTPErrorMetadata :: string where
  "errorInfoHTTPErrorMetadata = ''http.error_message''"

text \<open>
  \<^verbatim>\<open>ErrorFromHTTPResponseCode\<close>. \<open>StatusText\<close> is \<^verbatim>\<open>http.StatusText\<close>, the reason-phrase
  table of net/http, taken as a parameter.
\<close>

definition ErrorFromHTTPResponseCode ::
  "(ErrorInfo \<Rightarrow> 'any option) \<Rightarrow> (int \<Rightarrow> string) \<Rightarrow> int \<Rightarrow> string \<Rightarrow> 'any Status option" where
  "ErrorFromHTTPResponseCode marshal StatusText httpCode detail =
    (let grpcCode = CodeFromHTTPStatus httpCode in
     if grpcCode = codes_OK then None
     else
       (let httpStatusText = StatusText httpCode;
            respStatus = grpcStatus_New grpcCode httpStatusText;
            detail' = (if length detail \<ge> maxMetadataValueLen
                       then take maxMetadataValueLen detail else detail);
            resps = (case WithDetails marshal respStatus
                            \<lparr>Reason = httpStatusText, Domain = errorInfoDomain,
                             Metadata = [errorInfoHTTPCodeMetadata \<mapsto> Itoa httpCode,
                                         errorInfoHTTPErrorMetadata \<mapsto> detail']\<rparr> of
                       None \<Rightarrow> respStatus
                     | Some r \<Rightarrow> r)
        in Err resps))"

section \<open>Metadata bridge and trace propagation (pkg/messaging/v1/util.go)\<close>

definition GRPCContentType :: string where "GRPCContentType = ''application/grpc''"
definition ContentTypeHeader :: string where "ContentTypeHeader = ''content-type''"
definition DaprHeaderPrefix :: string where "DaprHeaderPrefix = ''dapr-''"
definition gRPCBinaryMetadataSuffix :: string where "gRPCBinaryMetadataSuffix = ''-bin''"
definition DestinationIDHeader :: string where "DestinationIDHeader = ''destination-app-id''"

text \<open>The trace keys of pkg/diagnostics/consts.\<close>

definition TraceparentHeader :: string where "TraceparentHeader = ''traceparent''"
definition TracestateHeader :: string where "TracestateHeader = ''tracestate''"
definition BaggageHeader :: string where "BaggageHeader = ''baggage''"
definition GRPCTraceContextKey :: string where "GRPCTraceContextKey = ''grpc-trace-bin''"

definition isPermanentHTTPHeader :: "string \<Rightarrow> bool" where
  "isPermanentHTTPHeader hdr =
    (hdr \<in> set [''Accept'', ''Accept-Charset'', ''Accept-Language'', ''Accept-Ranges'',
       ''Connection'', ''Keep-Alive'', ''Proxy-Connection'', ''Transfer-Encoding'',
       ''Upgrade'', ''Cache-Control'', ''Content-Type'', ''Content-Length'', ''Cookie'',
       ''Date'', ''Expect'', ''From'', ''Host'', ''If-Match'', ''If-Modified-Since'',
       ''If-None-Match'', ''If-Schedule-Tag-Match'', ''If-Unmodified-Since'',
       ''Max-Forwards'', ''Origin'', ''Pragma'', ''Referer'', ''Via'', ''Warning''])"

text \<open>
  \<^verbatim>\<open>DaprInternalMetadata\<close> is a Go map from a key to a \<^verbatim>\<open>*ListStringValue\<close>. It is
  modelled as the list of its entries in the order the \<^verbatim>\<open>range\<close> loop visits them (Go
  leaves that order open, so theorems hold for every order); a Go map holds a key once,
  and \<open>map_of\<close> is the lookup. Of a value only \<^verbatim>\<open>GetValues()\<close> is read, which is the
  empty slice for a \<^verbatim>\<open>nil\<close> pointer: a value is the list of its strings.
  Indexing an empty slice panics.
\<close>

type_synonym DaprInternalMetadata = "(string \<times> string list) list"

datatype panic = IndexOutOfRange

text \<open>
  \<^verbatim>\<open>metadata.MD\<close> of google.golang.org/grpc/metadata is a map from a key to its values.
  \<^verbatim>\<open>Append\<close> and \<^verbatim>\<open>Set\<close> do nothing when given no value and lower-case the key.
\<close>

type_synonym MD = "string \<rightharpoonup> string list"

text \<open>
  What the package takes from outside: the Unicode case mapping behind
  \<^verbatim>\<open>strings.ToLower\<close>, and the tracing operations of pkg/diagnostics and
  pkg/diagnostics/utils, whose span context (\<open>'sc\<close>), trace state (\<open>'ts\<close>) and call
  context (\<open>'ctx\<close>) stay abstract. \<open>SpanFromContext\<close> stands for
  \<^verbatim>\<open>diagUtils.SpanFromContext(ctx).SpanContext()\<close>, the ambient span context.
\<close>

record ('ctx, 'sc, 'ts) env =
  UnicodeToLower :: "string \<Rightarrow> string"
  SpanFromContext :: "'ctx \<Rightarrow> 'sc"
  SpanContextFromBinary :: "string \<Rightarrow> 'sc option"
  BinaryFromSpanContext :: "'sc \<Rightarrow> string"
  SpanContextFromW3CString :: "string \<Rightarrow> 'sc option"
  TraceStateFromW3CString :: "string \<Rightarrow> 'ts"
  WithTraceState :: "'sc \<Rightarrow> 'ts \<Rightarrow> 'sc"
  SpanContextToW3CString :: "'sc \<Rightarrow> string"
  TraceStateToW3CString :: "'sc \<Rightarrow> string option"

definition lower :: "('ctx, 'sc, 'ts) env \<Rightarrow> string \<Rightarrow> string" where
  "lower E s = ToLower (UnicodeToLower E) s"

definition MD_Append :: "('ctx, 'sc, 'ts) env \<Rightarrow> MD \<Rightarrow> string \<Rightarrow> string list \<Rightarrow> MD" where
  "MD_Append E md k vals =
    (if vals = [] then md
     else (let k' = lower E k
           in md(k' \<mapsto> (case md k' of None \<Rightarrow> [] | Some old \<Rightarrow> old) @ vals)))"

definition MD_Set :: "('ctx, 'sc, 'ts) env \<Rightarrow> MD \<Rightarrow> string \<Rightarrow> string list \<Rightarrow> MD" where
  "MD_Set E md k vals = (if vals = [] then md else md(lower E k \<mapsto> vals))"

text \<open>
  Modelled from the spec: \<^verbatim>\<open>diag.SpanContextToHTTPHeaders\<close> (pkg/diagnostics, not
  among the sources). The spec (4.2): it "yields \<^verbatim>\<open>traceparent\<close> and optionally
  \<^verbatim>\<open>tracestate\<close>". The result is the list of \<^verbatim>\<open>setHeader\<close> calls, in order.
\<close>

definition SpanContextToHTTPHeaders ::
  "('ctx, 'sc, 'ts) env \<Rightarrow> 'sc \<Rightarrow> (string \<times> string) list" where
  "SpanContextToHTTPHeaders E sc =
    (TraceparentHeader, SpanContextToW3CString E sc) #
    (case TraceStateToW3CString E sc of
       None \<Rightarrow> []
     | Some h \<Rightarrow> [(TracestateHeader, h)])"

text \<open>The callback \<^verbatim>\<open>func(header, value) { md.Set(header, value) }\<close>, call after call.\<close>

definition setAll :: "('ctx, 'sc, 'ts) env \<Rightarrow> MD \<Rightarrow> (string \<times> string) list \<Rightarrow> MD" where
  "setAll E md hs = foldl (\<lambda>m (header, v). MD_Set E m header [v]) md hs"

text \<open>
  The two functions that write HTTP headers call \<^verbatim>\<open>setHeader\<close>, a function of the
  caller's; they are modelled by the list of the calls they make, in order.
\<close>

definition processGRPCToHTTPTraceHeaders ::
  "('ctx, 'sc, 'ts) env \<Rightarrow> 'ctx \<Rightarrow> string \<Rightarrow> (string \<times> string) list" where
  "processGRPCToHTTPTraceHeaders E ctx traceContext =
    (let decoded = fst (DecodeString traceContext);
         sc = (case SpanContextFromBinary E decoded of
                 None \<Rightarrow> SpanFromContext E ctx
               | Some sc' \<Rightarrow> sc')
     in SpanContextToHTTPHeaders E sc)"

definition processHTTPToHTTPTraceHeaders ::
  "('ctx, 'sc, 'ts) env \<Rightarrow> 'ctx \<Rightarrow> string \<Rightarrow> string \<Rightarrow> (string \<times> string) list" where
  "processHTTPToHTTPTraceHeaders E ctx traceparentValue traceStateValue =
    (if traceparentValue = [] then SpanContextToHTTPHeaders E (SpanFromContext E ctx)
     else (TraceparentHeader, traceparentValue) #
          (if traceStateValue \<noteq> [] then [(TracestateHeader, traceStateValue)] else []))"

definition processHTTPToGRPCTraceHeader ::
  "('ctx, 'sc, 'ts) env \<Rightarrow> 'ctx \<Rightarrow> MD \<Rightarrow> string \<Rightarrow> string \<Rightarrow> MD" where
  "processHTTPToGRPCTraceHeader E ctx md traceparentValue traceStateValue =
    (let sc = (case SpanContextFromW3CString E traceparentValue of
                 Some sc' \<Rightarrow> WithTraceState E sc' (TraceStateFromW3CString E traceStateValue)
               | None \<Rightarrow> SpanFromContext E ctx)
     in MD_Set E (setAll E md (SpanContextToHTTPHeaders E sc))
          GRPCTraceContextKey [BinaryFromSpanContext E sc])"

definition processGRPCToGRPCTraceHeader ::
  "('ctx, 'sc, 'ts) env \<Rightarrow> 'ctx \<Rightarrow> MD \<Rightarrow> string \<Rightarrow> MD" where
  "processGRPCToGRPCTraceHeader E ctx md grpctracebinValue =
    (if grpctracebinValue = [] then
       (let sc = SpanFromContext E ctx
        in MD_Set E (setAll E md (SpanContextToHTTPHeaders E sc))
             GRPCTraceContextKey [BinaryFromSpanContext E sc])
     else
       (case DecodeString grpctracebinValue of
          (decoded, ok) \<Rightarrow>
            if ok then
              MD_Set E
                (case SpanContextFromBinary E decoded of
                   Some sc \<Rightarrow> setAll E md (SpanContextToHTTPHeaders E sc)
                 | None \<Rightarrow> md)
                GRPCTraceContextKey [decoded]
            else md))"

text \<open>\<^verbatim>\<open>IsGRPCProtocol\<close>: \<^verbatim>\<open>val.GetValues()[0]\<close> panics on a key stored with no value.\<close>

definition IsGRPCProtocol :: "DaprInternalMetadata \<Rightarrow> panic + bool" where
  "IsGRPCProtocol internalMD =
    (case map_of internalMD ContentTypeHeader of
       None \<Rightarrow> Inr (HasPrefix [] GRPCContentType)
     | Some [] \<Rightarrow> Inl IndexOutOfRange
     | Some (v # _) \<Rightarrow> Inr (HasPrefix v GRPCContentType))"

text \<open>The inner loop of the \<^verbatim>\<open>-bin\<close> branch: a value that fails to decode is skipped.\<close>

fun appendDecoded :: "('ctx, 'sc, 'ts) env \<Rightarrow> MD \<Rightarrow> string \<Rightarrow> string list \<Rightarrow> MD" where
  "appendDecoded E md keyName [] = md"
| "appendDecoded E md keyName (v # vals) =
    (case DecodeString v of
       (decoded, ok) \<Rightarrow>
         appendDecoded E (if ok then MD_Append E md keyName [decoded] else md) keyName vals)"

text \<open>
  One pass through the body of the \<^verbatim>\<open>range\<close> loop of
  \<^verbatim>\<open>InternalMetadataToGrpcMetadata\<close>, for the entry \<open>(k, listVal)\<close>, on the state
  \<open>(traceparentValue, tracestateValue, grpctracebinValue, md)\<close>; a \<^verbatim>\<open>continue\<close>
  returns the state.
\<close>

type_synonym grpcState = "string \<times> string \<times> string \<times> MD"

fun grpcStep ::
  "('ctx, 'sc, 'ts) env \<Rightarrow> bool \<Rightarrow> string \<times> string list \<Rightarrow> grpcState \<Rightarrow> panic + grpcState" where
  "grpcStep E httpHeaderConversion (k, listVal) (tp, ts, gtb, md) =
    (let keyName = lower E k in
     if keyName = TraceparentHeader then
       (case listVal of [] \<Rightarrow> Inl IndexOutOfRange | v # _ \<Rightarrow> Inr (v, ts, gtb, md))
     else if keyName = TracestateHeader then
       (case listVal of [] \<Rightarrow> Inl IndexOutOfRange | v # _ \<Rightarrow> Inr (tp, v, gtb, md))
     else if keyName = GRPCTraceContextKey then
       (case listVal of [] \<Rightarrow> Inl IndexOutOfRange | v # _ \<Rightarrow> Inr (tp, ts, v, md))
     else if keyName = DestinationIDHeader then Inr (tp, ts, gtb, md)
     else
       (let keyName' = (if httpHeaderConversion \<and> isPermanentHTTPHeader k
                        then DaprHeaderPrefix @ keyName else keyName)
        in if HasSuffix k gRPCBinaryMetadataSuffix
           then Inr (tp, ts, gtb, appendDecoded E md keyName' listVal)
           else Inr (tp, ts, gtb, MD_Append E md keyName' listVal)))"

text \<open>The loop over the entries left; a panic ends it.\<close>

fun grpcLoop ::
  "('ctx, 'sc, 'ts) env \<Rightarrow> bool \<Rightarrow> DaprInternalMetadata \<Rightarrow> grpcState \<Rightarrow> panic + grpcState" where
  "grpcLoop E httpHeaderConversion [] st = Inr st"
| "grpcLoop E httpHeaderConversion (e # rest) st =
    (case grpcStep E httpHeaderConversion e st of
       Inl p \<Rightarrow> Inl p
     | Inr st' \<Rightarrow> grpcLoop E httpHeaderConversion rest st')"

definition InternalMetadataToGrpcMetadata ::
  "('ctx, 'sc, 'ts) env \<Rightarrow> 'ctx \<Rightarrow> DaprInternalMetadata \<Rightarrow> bool \<Rightarrow> panic + MD" where
  "InternalMetadataToGrpcMetadata E ctx internalMD httpHeaderConversion =
    (case grpcLoop E httpHeaderConversion internalMD ([], [], [], Map.empty) of
       Inl p \<Rightarrow> Inl p
     | Inr (traceparentValue, tracestateValue, grpctracebinValue, md) \<Rightarrow>
         (case IsGRPCProtocol internalMD of
            Inl p \<Rightarrow> Inl p
          | Inr True \<Rightarrow> Inr (processGRPCToGRPCTraceHeader E ctx md grpctracebinValue)
          | Inr False \<Rightarrow>
              Inr (processHTTPToGRPCTraceHeader E ctx md traceparentValue tracestateValue)))"

definition ReservedGRPCMetadataToDaprPrefixHeader :: "string \<Rightarrow> string" where
  "ReservedGRPCMetadataToDaprPrefixHeader key =
    (if key = '':method'' \<or> key = '':scheme'' \<or> key = '':path'' \<or> key = '':authority''
     then DaprHeaderPrefix @ drop 1 key
     else if HasPrefix key ''grpc-'' then DaprHeaderPrefix @ key
     else key)"

text \<open>
  One pass through the body of the \<^verbatim>\<open>range\<close> loop of \<^verbatim>\<open>InternalMetadataToHTTPHeader\<close>,
  on the state \<open>(traceparentValue, tracestateValue, grpctracebinValue, calls of setHeader
  so far)\<close>. An entry without values is skipped first, so no index is out of range.
\<close>

type_synonym httpState = "string \<times> string \<times> string \<times> (string \<times> string) list"

fun httpStep :: "('ctx, 'sc, 'ts) env \<Rightarrow> string \<times> string list \<Rightarrow> httpState \<Rightarrow> httpState" where
  "httpStep E (k, []) st = st"
| "httpStep E (k, v # vals) (tp, ts, gtb, hs) =
    (let keyName = lower E k in
     if keyName = TraceparentHeader then (v, ts, gtb, hs)
     else if keyName = TracestateHeader then (tp, v, gtb, hs)
     else if keyName = GRPCTraceContextKey then (tp, ts, v, hs)
     else if keyName = DestinationIDHeader then (tp, ts, gtb, hs)
     else if keyName = BaggageHeader then (tp, ts, gtb, hs @ [(BaggageHeader, v)])
     else if HasSuffix keyName gRPCBinaryMetadataSuffix \<or> keyName = ContentTypeHeader
       then (tp, ts, gtb, hs)
     else
       (tp, ts, gtb,
        hs @ map (\<lambda>x. (ReservedGRPCMetadataToDaprPrefixHeader keyName, x)) (v # vals)))"

fun httpLoop :: "('ctx, 'sc, 'ts) env \<Rightarrow> DaprInternalMetadata \<Rightarrow> httpState \<Rightarrow> httpState" where
  "httpLoop E [] st = st"
| "httpLoop E (e # rest) st = httpLoop E rest (httpStep E e st)"

definition InternalMetadataToHTTPHeader ::
  "('ctx, 'sc, 'ts) env \<Rightarrow> 'ctx \<Rightarrow> DaprInternalMetadata \<Rightarrow> panic + (string \<times> string) list" where
  "InternalMetadataToHTTPHeader E ctx internalMD =
    (case httpLoop E internalMD ([], [], [], []) of
       (traceparentValue, tracestateValue, grpctracebinValue, hs) \<Rightarrow>
         (case IsGRPCProtocol internalMD of
            Inl p \<Rightarrow> Inl p
          | Inr True \<Rightarrow> Inr (hs @ processGRPCToHTTPTraceHeaders E ctx grpctracebinValue)
          | Inr False \<Rightarrow>
              Inr (hs @ processHTTPToHTTPTraceHeaders E ctx traceparentValue
                          tracestateValue)))"

text \<open>
  Two notions for stating what the bridge does to values. \<open>decodedValues\<close> is what the
  spec says of a \<^verbatim>\<open>-bin\<close> key: every value base64-decoded, the ones that fail to decode
  left out. \<open>carries md key vals\<close>: the metadata holds, under \<open>key\<close>, at least the
  values \<open>vals\<close>.
\<close>

definition decodedValues :: "string list \<Rightarrow> string list" where
  "decodedValues vals =
    map (\<lambda>v. fst (DecodeString v)) (filter (\<lambda>v. snd (DecodeString v)) vals)"

definition carries :: "MD \<Rightarrow> string \<Rightarrow> string list \<Rightarrow> bool" where
  "carries md key vals = (\<exists>ws. md key = Some ws \<and> set vals \<subseteq> set ws)"

text \<open>
  Three notions for stating what the two bridge functions do with the trace keys.
  \<open>inbound E key md\<close> is the inbound value of the trace key \<open>key\<close>: with the entries
  taken in the order of the loop, the first value of the last entry that has a value and
  whose lower-cased key is \<open>key\<close>, and the empty string when there is no such entry
  (the loops start from the empty string and overwrite it at each such entry).
  \<open>copiedMD\<close> is the metadata that the loop of \<^verbatim>\<open>InternalMetadataToGrpcMetadata\<close> has
  built when it ends, before the trace step (nothing when the loop panics), and
  \<open>writtenHeaders\<close> the calls of \<^verbatim>\<open>setHeader\<close> that the loop of
  \<^verbatim>\<open>InternalMetadataToHTTPHeader\<close> has made, in order.
\<close>

fun inboundFrom ::
  "('ctx, 'sc, 'ts) env \<Rightarrow> string \<Rightarrow> DaprInternalMetadata \<Rightarrow> string \<Rightarrow> string" where
  "inboundFrom E key [] cur = cur"
| "inboundFrom E key ((k, listVal) # rest) cur =
    inboundFrom E key rest
      (case listVal of [] \<Rightarrow> cur | v # _ \<Rightarrow> if lower E k = key then v else cur)"

definition inbound :: "('ctx, 'sc, 'ts) env \<Rightarrow> string \<Rightarrow> DaprInternalMetadata \<Rightarrow> string" where
  "inbound E key md = inboundFrom E key md []"

definition copiedMD :: "('ctx, 'sc, 'ts) env \<Rightarrow> bool \<Rightarrow> DaprInternalMetadata \<Rightarrow> MD" where
  "copiedMD E conv md =
    (case grpcLoop E conv md ([], [], [], Map.empty) of
       Inl p \<Rightarrow> Map.empty
     | Inr (tp, ts, gtb, m) \<Rightarrow> m)"

definition writtenHeaders ::
  "('ctx, 'sc, 'ts) env \<Rightarrow> DaprInternalMetadata \<Rightarrow> (string \<times> string) list" where
  "writtenHeaders E md = (case httpLoop E md ([], [], [], []) of (tp, ts, gtb, hs) \<Rightarrow> hs)"

section \<open>gRPC metrics recorder (package diagnostics)\<close>

text \<open>
  The ten measures \<^verbatim>\<open>newGRPCMetrics\<close> creates are fixed, so they are a datatype with
  their names. The tag keys are values of opencensus' \<^verbatim>\<open>tag.Key\<close>; \<^verbatim>\<open>appIDKey\<close> is
  declared elsewhere in the package and only its identity matters here.
\<close>

datatype measure =
    serverReceivedBytes | serverSentBytes | serverLatency | serverCompletedRpcs
  | clientSentBytes | clientReceivedBytes | clientRoundtripLatency | clientCompletedRpcs
  | healthProbeCompletedCount | healthProbeRoundtripLatency

fun Name :: "measure \<Rightarrow> string" where
  "Name serverReceivedBytes = ''grpc.io/server/received_bytes_per_rpc''"
| "Name serverSentBytes = ''grpc.io/server/sent_bytes_per_rpc''"
| "Name serverLatency = ''grpc.io/server/server_latency''"
| "Name serverCompletedRpcs = ''grpc.io/server/completed_rpcs''"
| "Name clientSentBytes = ''grpc.io/client/sent_bytes_per_rpc''"
| "Name clientReceivedBytes = ''grpc.io/client/received_bytes_per_rpc''"
| "Name clientRoundtripLatency = ''grpc.io/client/roundtrip_latency''"
| "Name clientCompletedRpcs = ''grpc.io/client/completed_rpcs''"
| "Name healthProbeCompletedCount = ''grpc.io/healthprobes/completed_count''"
| "Name healthProbeRoundtripLatency = ''grpc.io/healthprobes/roundtrip_latency''"

datatype tagKey = appIDKey | KeyServerMethod | KeyServerStatus | KeyClientMethod | KeyClientStatus

text \<open>
  One call of \<^verbatim>\<open>stats.RecordWithOptions\<close> on the recorder \<^verbatim>\<open>g.meter\<close>: the arguments
  handed to \<^verbatim>\<open>diagUtils.WithTags\<close> (the measure's name, then the key/value pairs) and
  the measurement. An \<^verbatim>\<open>Int64Measure\<close> takes an \<^verbatim>\<open>int64\<close>. The latency is
  \<^verbatim>\<open>float64(time.Since(start) / time.Millisecond)\<close>, the conversion of a whole number of
  milliseconds, and is kept as that number.
\<close>

datatype measured = Int64 int | Millis int

record measurement =
  tagsName :: string
  tags :: "(tagKey \<times> string) list"
  of_measure :: measure
  amount :: measured

text \<open>
  Of \<^verbatim>\<open>grpcMetrics\<close> the fields that vary: the measures are those above, and the
  recorder \<^verbatim>\<open>meter\<close> is outside the struct: its state, the measurements recorded so
  far, is passed to every operation and returned. The receiver is a pointer and may be
  \<^verbatim>\<open>nil\<close> (\<open>None\<close>). No operation below writes a field of \<^verbatim>\<open>g\<close>.
\<close>

record grpcMetrics =
  appID :: string
  enabled :: bool

definition newGRPCMetrics :: "grpcMetrics option" where
  "newGRPCMetrics = Some \<lparr>appID = [], enabled = False\<rparr>"

text \<open>\<^verbatim>\<open>Init\<close>, without the registration of the views on the meter.\<close>

definition Init :: "grpcMetrics \<Rightarrow> string \<Rightarrow> grpcMetrics" where
  "Init g app = g\<lparr>appID := app, enabled := True\<rparr>"

definition IsEnabled :: "grpcMetrics option \<Rightarrow> bool" where
  "IsEnabled g = (g \<noteq> None \<and> enabled (the g))"

text \<open>
  \<^verbatim>\<open>time.Since(start) / time.Millisecond\<close>: the clock reading \<open>now\<close> and \<open>start\<close> in
  nanoseconds; Go's integer division truncates toward zero (\<open>sdiv\<close>).
\<close>

definition elapsedMillis :: "int \<Rightarrow> int \<Rightarrow> int" where
  "elapsedMillis now start = (now - start) sdiv 1000000"

definition record_measure ::
  "measure \<Rightarrow> (tagKey \<times> string) list \<Rightarrow> measured \<Rightarrow> measurement" where
  "record_measure m kvs x = \<lparr>tagsName = Name m, tags = kvs, of_measure = m, amount = x\<rparr>"

definition ServerRequestSent ::
  "grpcMetrics option \<Rightarrow> measurement list \<Rightarrow> int \<Rightarrow> string \<Rightarrow> string \<Rightarrow> int \<Rightarrow> int \<Rightarrow> int \<Rightarrow>
   measurement list" where
  "ServerRequestSent g meter now method status reqContentSize resContentSize start =
    (if \<not> IsEnabled g then meter
     else
       (let elapsed = elapsedMillis now start; app = appID (the g)
        in meter @
           [record_measure serverCompletedRpcs
              [(appIDKey, app), (KeyServerMethod, method), (KeyServerStatus, status)] (Int64 1),
            record_measure serverReceivedBytes
              [(appIDKey, app), (KeyServerMethod, method)] (Int64 reqContentSize),
            record_measure serverSentBytes
              [(appIDKey, app), (KeyServerMethod, method)] (Int64 resContentSize),
            record_measure serverLatency
              [(appIDKey, app), (KeyServerMethod, method), (KeyServerStatus, status)]
              (Millis elapsed)]))"

definition StreamServerRequestSent ::
  "grpcMetrics option \<Rightarrow> measurement list \<Rightarrow> int \<Rightarrow> string \<Rightarrow> string \<Rightarrow> int \<Rightarrow>
   measurement list" where
  "StreamServerRequestSent g meter now method status start =
    (if \<not> IsEnabled g then meter
     else
       (let elapsed = elapsedMillis now start; app = appID (the g)
        in meter @
           [record_measure serverCompletedRpcs
              [(appIDKey, app), (KeyServerMethod, method), (KeyServerStatus, status)] (Int64 1),
            record_measure serverLatency
              [(appIDKey, app), (KeyServerMethod, method), (KeyServerStatus, status)]
              (Millis elapsed)]))"

definition StreamClientRequestSent ::
  "grpcMetrics option \<Rightarrow> measurement list \<Rightarrow> int \<Rightarrow> string \<Rightarrow> string \<Rightarrow> int \<Rightarrow>
   measurement list" where
  "StreamClientRequestSent g meter now method status start =
    (if \<not> IsEnabled g then meter
     else
       (let elapsed = elapsedMillis now start; app = appID (the g)
        in meter @
           [record_measure clientCompletedRpcs
              [(appIDKey, app), (KeyClientMethod, method), (KeyClientStatus, status)] (Int64 1),
            record_measure clientRoundtripLatency
              [(appIDKey, app), (KeyClientMethod, method), (KeyClientStatus, status)]
              (Millis elapsed)]))"

definition ClientRequestReceived ::
  "grpcMetrics option \<Rightarrow> measurement list \<Rightarrow> int \<Rightarrow> string \<Rightarrow> string \<Rightarrow> int \<Rightarrow> int \<Rightarrow> int \<Rightarrow>
   measurement list" where
  "ClientRequestReceived g meter now method status reqContentSize resContentSize start =
    (if \<not> IsEnabled g then meter
     else
       (let elapsed = elapsedMillis now start; app = appID (the g)
        in meter @
           [record_measure clientCompletedRpcs
              [(appIDKey, app), (KeyClientMethod, method), (KeyClientStatus, status)] (Int64 1),
            record_measure clientRoundtripLatency
              [(appIDKey, app), (KeyClientMethod, method), (KeyClientStatus, status)]
              (Millis elapsed),
            record_measure clientSentBytes
              [(appIDKey, app), (KeyClientMethod, method)] (Int64 reqContentSize),
            record_measure clientReceivedBytes
              [(appIDKey, app), (KeyClientMethod, method)] (Int64 resContentSize)]))"

definition AppHealthProbeCompleted ::
  "grpcMetrics option \<Rightarrow> measurement list \<Rightarrow> int \<Rightarrow> string \<Rightarrow> int \<Rightarrow> measurement list" where
  "AppHealthProbeCompleted g meter now status start =
    (if \<not> IsEnabled g then meter
     else
       (let elapsed = elapsedMillis now start; app = appID (the g)
        in meter @
           [record_measure healthProbeCompletedCount
              [(appIDKey, app), (KeyClientStatus, status)] (Int64 1),
            record_measure healthProbeRoundtripLatency
              [(appIDKey, app), (KeyClientStatus, status)] (Millis elapsed)]))"

section \<open>An instance of the outside operations, for evaluating at concrete inputs\<close>

text \<open>
  A small tracing layer to run the bridge on concrete metadata: a span context is the
  pair of its \<^verbatim>\<open>traceparent\<close> and \<^verbatim>\<open>tracestate\<close> texts, the call context is its ambient
  span context, the binary form is the \<^verbatim>\<open>traceparent\<close> text behind a zero byte, and a
  \<^verbatim>\<open>traceparent\<close> parses when it has the 55 bytes of the W3C format. The general
  theorems hold for every such layer; this one serves only the closed examples.
\<close>

definition sampleEnv :: "(string \<times> string, string \<times> string, string) env" where
  "sampleEnv =
    \<lparr>UnicodeToLower = (\<lambda>s. s),
     SpanFromContext = (\<lambda>ctx. ctx),
     SpanContextFromBinary =
       (\<lambda>b. case b of [] \<Rightarrow> None
            | c # tp \<Rightarrow> if c = CHR 0x00 \<and> length tp = 55 then Some (tp, []) else None),
     BinaryFromSpanContext = (\<lambda>sc. CHR 0x00 # fst sc),
     SpanContextFromW3CString = (\<lambda>s. if length s = 55 then Some (s, []) else None),
     TraceStateFromW3CString = (\<lambda>s. s),
     WithTraceState = (\<lambda>sc ts. (fst sc, ts)),
     SpanContextToW3CString = fst,
     TraceStateToW3CString = (\<lambda>sc. if snd sc = [] then None else Some (snd sc))\<rparr>"

definition sampleCtx :: "string \<times> string" where
  "sampleCtx = (''00-0af7651916cd43dd8448eb211c80319c-b7ad6b7169203331-01'', [])"

section \<open>Go library functions: lemmas\<close>

declare natToDec.simps [simp del]

lemma of_char_lt: "(of_char (c::char) :: nat) < 256"
  by (metis of_char_of char_of_char mod_less_divisor zero_less_numeral)

lemma digits64:
  fixes n :: nat
  assumes "n < 16777216"
  shows "(n div 262144 mod 64) * 262144 + (n div 4096 mod 64) * 4096 + (n div 64 mod 64) * 64 + n mod 64 = n"
proof -
  define q1 where "q1 = n div 64"
  define q2 where "q2 = q1 div 64"
  define q3 where "q3 = q2 div 64"
  have e1: "n = q1 * 64 + n mod 64" unfolding q1_def by simp
  have e2: "q1 = q2 * 64 + q1 mod 64" unfolding q2_def by simp
  have e3: "q2 = q3 * 64 + q2 mod 64" unfolding q3_def by simp
  have d2: "n div 4096 = q2" unfolding q2_def q1_def by (simp add: div_mult2_eq [symmetric])
  have d3: "n div 262144 = q3" unfolding q3_def q2_def q1_def by (simp add: div_mult2_eq [symmetric])
  have "q3 < 64" using assms unfolding d3 [symmetric] by simp
  then have m3: "q3 mod 64 = q3" by simp
  show ?thesis unfolding d2 d3 m3 q1_def [symmetric] using e1 e2 e3 by linarith
qed

lemma bytes3:
  fixes a b c :: nat
  assumes "a < 256" "b < 256" "c < 256"
  shows "(a * 65536 + b * 256 + c) div 65536 = a"
    and "(a * 65536 + b * 256 + c) div 256 mod 256 = b"
    and "(a * 65536 + b * 256 + c) mod 256 = c"
    and "a * 65536 + b * 256 + c < 16777216"
proof -
  show "(a * 65536 + b * 256 + c) div 65536 = a" using assms by simp
  have "(a * 65536 + b * 256 + c) = (a * 256 + b) * 256 + c" by simp
  then have "(a * 65536 + b * 256 + c) div 256 = a * 256 + b" using assms by simp
  then show "(a * 65536 + b * 256 + c) div 256 mod 256 = b" using assms by simp
  have "((a * 256 + b) * 256 + c) mod 256 = c" using assms by (simp only: mod_mult_self3 mod_less)
  moreover have "(a * 65536 + b * 256 + c) = (a * 256 + b) * 256 + c" by simp
  ultimately show "(a * 65536 + b * 256 + c) mod 256 = c" by (simp only:)
  show "a * 65536 + b * 256 + c < 16777216" using assms by linarith
qed

lemma length_encodeStd: "length encodeStd = 64" by (simp add: encodeStd_def)
lemma distinct_encodeStd: "distinct encodeStd" by (simp add: encodeStd_def)
lemma pad_notin: "padChar \<notin> set encodeStd" by (simp add: encodeStd_def padChar_def)
lemma nl_notin: "\<forall>c \<in> set encodeStd. \<not> isNewline c" by (simp add: encodeStd_def isNewline_def)

lemma decodeMap_encodeByte: "decodeMap (encodeByte v) = Some (v mod 64)"
proof -
  have "v mod 64 < length [0..<length encodeStd]" by (simp add: length_encodeStd)
  then have "map_of (zip encodeStd [0..<length encodeStd]) (encodeStd ! (v mod 64)) = Some ([0..<length encodeStd] ! (v mod 64))"
    by (intro map_of_zip_nth) (simp_all add: distinct_encodeStd)
  then show ?thesis by (simp add: decodeMap_def encodeByte_def length_encodeStd)
qed

lemma encodeByte_in: "encodeByte v \<in> set encodeStd"
  by (simp add: encodeByte_def length_encodeStd)

lemma encodeByte_not_pad: "encodeByte v \<noteq> padChar"
  using encodeByte_in pad_notin by metis

lemma encodeByte_not_newline: "\<not> isNewline (encodeByte v)"
  using encodeByte_in nl_notin by blast

lemma pad_not_newline: "\<not> isNewline padChar" by (simp add: isNewline_def padChar_def)

lemma quantum3:
  fixes a b c :: nat
  assumes "a < 256" "b < 256" "c < 256"
  shows "quantumBytes 4 ((a * 65536 + b * 256 + c) div 262144 mod 64)
           ((a * 65536 + b * 256 + c) div 4096 mod 64)
           ((a * 65536 + b * 256 + c) div 64 mod 64) ((a * 65536 + b * 256 + c) mod 64)
         = [char_of a, char_of b, char_of c]"
proof -
  define v where "v = a * 65536 + b * 256 + c"
  have v: "(v div 262144 mod 64) * 262144 + (v div 4096 mod 64) * 4096 + (v div 64 mod 64) * 64 + v mod 64 = v"
    unfolding v_def by (rule digits64) (rule bytes3 [OF assms])
  have b0: "v div 65536 = a" and b1: "v div 256 mod 256 = b" and b2: "v mod 256 = c"
    unfolding v_def by (rule bytes3 [OF assms])+
  have c1: "char_of (v div 256) = char_of b" using b1 by (metis char_of_mod_256)
  have c2: "char_of v = char_of c" using b2 by (metis char_of_mod_256)
  show ?thesis unfolding quantumBytes_def Let_def v_def [symmetric] v b0 c1 c2 by simp
qed

lemma quantum2:
  fixes a b :: nat
  assumes "a < 256" "b < 256"
  shows "quantumBytes 3 ((a * 65536 + b * 256) div 262144 mod 64)
           ((a * 65536 + b * 256) div 4096 mod 64)
           ((a * 65536 + b * 256) div 64 mod 64) 0
         = [char_of a, char_of b]"
proof -
  define v where "v = a * 65536 + b * 256 + 0"
  have z: "(0::nat) < 256" by simp
  have v: "(v div 262144 mod 64) * 262144 + (v div 4096 mod 64) * 4096 + (v div 64 mod 64) * 64 + v mod 64 = v"
    unfolding v_def by (rule digits64) (rule bytes3 [OF assms z])
  have b0: "v div 65536 = a" and b1: "v div 256 mod 256 = b"
    unfolding v_def by (rule bytes3 [OF assms z])+
  have "v = (a * 1024 + b * 4) * 64" unfolding v_def by simp
  then have m: "v mod 64 = 0" by simp
  have c1: "char_of (v div 256) = char_of b" using b1 by (metis char_of_mod_256)
  have v': "(v div 262144 mod 64) * 262144 + (v div 4096 mod 64) * 4096 + (v div 64 mod 64) * 64 + 0 = v"
    using v unfolding m .
  have vv: "a * 65536 + b * 256 = v" unfolding v_def by simp
  show ?thesis unfolding quantumBytes_def Let_def vv v' b0 c1 by simp
qed

lemma quantum1:
  fixes a :: nat
  assumes "a < 256"
  shows "quantumBytes 2 ((a * 65536) div 262144 mod 64) ((a * 65536) div 4096 mod 64) 0 0
         = [char_of a]"
proof -
  define v where "v = a * 65536 + 0 * 256 + 0"
  have z: "(0::nat) < 256" by simp
  have v: "(v div 262144 mod 64) * 262144 + (v div 4096 mod 64) * 4096 + (v div 64 mod 64) * 64 + v mod 64 = v"
    unfolding v_def by (rule digits64) (rule bytes3 [OF assms z z])
  have b0: "v div 65536 = a"
    unfolding v_def by (rule bytes3 [OF assms z z])
  have "v = (a * 1024) * 64" unfolding v_def by simp
  then have m: "v mod 64 = 0" by simp
  have "v = (a * 16) * 4096" unfolding v_def by simp
  then have "v div 64 = (a * 16) * 64" by simp
  then have m2: "v div 64 mod 64 = 0" by simp
  have v': "(v div 262144 mod 64) * 262144 + (v div 4096 mod 64) * 4096 + 0 * 64 + 0 = v"
    using v unfolding m m2 .
  have vv: "a * 65536 = v" unfolding v_def by simp
  show ?thesis unfolding quantumBytes_def Let_def vv v' b0 by simp
qed

lemma decodeQuanta_Encode: "decodeQuanta (EncodeToString bs) = (bs, True)"
proof (induction bs rule: EncodeToString.induct)
  case 1
  show ?case by simp
next
  case (2 a)
  show ?case
    using quantum1 [OF of_char_lt [of a]]
    by (simp add: Let_def decodeMap_encodeByte encodeByte_not_pad)
next
  case (3 a b)
  show ?case
    using quantum2 [OF of_char_lt [of a] of_char_lt [of b]]
    by (simp add: Let_def decodeMap_encodeByte encodeByte_not_pad)
next
  case (4 a b c src)
  show ?case
    using quantum3 [OF of_char_lt [of a] of_char_lt [of b] of_char_lt [of c]] 4
    by (simp add: Let_def decodeMap_encodeByte encodeByte_not_pad)
qed

lemma Encode_no_newline: "filter (\<lambda>c. \<not> isNewline c) (EncodeToString bs) = EncodeToString bs"
  by (induction bs rule: EncodeToString.induct)
     (simp_all add: Let_def encodeByte_not_newline pad_not_newline)

lemma DecodeString_EncodeToString: "DecodeString (EncodeToString bs) = (bs, True)"
  by (simp add: DecodeString_def Encode_no_newline decodeQuanta_Encode)

section \<open>Status/code translation: theorems\<close>

lemmas codes_defs =
  codes_OK_def codes_Canceled_def codes_Unknown_def codes_InvalidArgument_def
  codes_DeadlineExceeded_def codes_NotFound_def codes_AlreadyExists_def
  codes_PermissionDenied_def codes_ResourceExhausted_def codes_FailedPrecondition_def
  codes_Aborted_def codes_OutOfRange_def codes_Unimplemented_def codes_Internal_def
  codes_Unavailable_def codes_DataLoss_def codes_Unauthenticated_def

lemmas http_defs =
  StatusOK_def StatusBadRequest_def StatusUnauthorized_def StatusForbidden_def
  StatusNotFound_def StatusRequestTimeout_def StatusConflict_def StatusTooManyRequests_def
  StatusInternalServerError_def StatusNotImplemented_def StatusServiceUnavailable_def
  StatusGatewayTimeout_def

lemma CodeFromHTTPStatus_2xx:
  "200 \<le> httpCode \<Longrightarrow> httpCode < 300 \<Longrightarrow> CodeFromHTTPStatus httpCode = codes_OK"
  by (simp add: CodeFromHTTPStatus_def)

lemma CodeFromHTTPStatus_OK_iff:
  "CodeFromHTTPStatus httpCode = codes_OK \<longleftrightarrow> 200 \<le> httpCode \<and> httpCode < 300"
  by (simp add: CodeFromHTTPStatus_def codes_defs http_defs)

text \<open>
  C2, as the code has it: HTTP 400 translates to INTERNAL (the mapping of gRPC's
  http-grpc-status-mapping document, which the function cites), not to INVALID_ARGUMENT.
\<close>

theorem C2_bad_request_is_internal:
  "CodeFromHTTPStatus 400 = codes_Internal"
  by (simp add: CodeFromHTTPStatus_def http_defs)

text \<open>C2 as stated fails: the code for HTTP 400 is not INVALID_ARGUMENT.\<close>

theorem C2_counterexample:
  "CodeFromHTTPStatus 400 \<noteq> codes_InvalidArgument"
  by (simp add: CodeFromHTTPStatus_def http_defs codes_defs)

text \<open>
  C3: \<open>HTTPStatusFromCode\<close> is a total function whose value is always one of twelve HTTP
  statuses (so between 100 and 599), 500 for every code above the seventeen named ones;
  FAILED_PRECONDITION and OUT_OF_RANGE both give 400, and translating that back gives
  INTERNAL, which is neither of them.
\<close>

theorem C3_status_from_code_total_and_lossy:
  "HTTPStatusFromCode c \<in> {200, 400, 401, 403, 404, 408, 409, 429, 500, 501, 503, 504}
   \<and> 100 \<le> HTTPStatusFromCode c \<and> HTTPStatusFromCode c \<le> 599
   \<and> (16 < c \<longrightarrow> HTTPStatusFromCode c = 500)
   \<and> HTTPStatusFromCode codes_FailedPrecondition = 400
   \<and> HTTPStatusFromCode codes_OutOfRange = 400
   \<and> CodeFromHTTPStatus (HTTPStatusFromCode codes_FailedPrecondition) = codes_Internal
   \<and> CodeFromHTTPStatus (HTTPStatusFromCode codes_OutOfRange) = codes_Internal
   \<and> codes_Internal \<noteq> codes_FailedPrecondition
   \<and> codes_Internal \<noteq> codes_OutOfRange"
proof -
  have range: "HTTPStatusFromCode c \<in> {200, 400, 401, 403, 404, 408, 409, 429, 500, 501, 503, 504}"
    by (simp add: HTTPStatusFromCode_def http_defs)
  then have bounds: "100 \<le> HTTPStatusFromCode c \<and> HTTPStatusFromCode c \<le> 599"
    by auto
  have dflt: "16 < c \<longrightarrow> HTTPStatusFromCode c = 500"
    by (auto simp add: HTTPStatusFromCode_def http_defs codes_defs)
  have fp: "HTTPStatusFromCode codes_FailedPrecondition = 400"
    by (simp add: HTTPStatusFromCode_def http_defs codes_defs)
  have oor: "HTTPStatusFromCode codes_OutOfRange = 400"
    by (simp add: HTTPStatusFromCode_def http_defs codes_defs)
  have rev: "CodeFromHTTPStatus 400 = codes_Internal"
    by (simp add: CodeFromHTTPStatus_def http_defs)
  have ne: "codes_Internal \<noteq> codes_FailedPrecondition" "codes_Internal \<noteq> codes_OutOfRange"
    by (simp_all add: codes_defs)
  show ?thesis using range bounds dflt fp oor rev ne by simp
qed

theorem C3_witness:
  "HTTPStatusFromCode 17 = 500 \<and> HTTPStatusFromCode 4294967295 = 500
   \<and> CodeFromHTTPStatus (HTTPStatusFromCode 9) = 13
   \<and> CodeFromHTTPStatus (HTTPStatusFromCode 11) = 13"
  using C3_status_from_code_total_and_lossy [of 17]
        C3_status_from_code_total_and_lossy [of 4294967295]
  by (simp add: codes_defs)

text \<open>
  C6: every HTTP status from 200 to 299 translates to OK, and
  \<open>ErrorFromHTTPResponseCode\<close> returns \<^verbatim>\<open>nil\<close> for it, whatever the detail string.
\<close>

theorem C6_success_codes:
  assumes "200 \<le> httpCode" and "httpCode \<le> 299"
  shows "CodeFromHTTPStatus httpCode = codes_OK
       \<and> ErrorFromHTTPResponseCode marshal StatusText httpCode detail = None"
proof -
  have "CodeFromHTTPStatus httpCode = codes_OK"
    using assms by (simp add: CodeFromHTTPStatus_2xx)
  then show ?thesis
    by (simp add: ErrorFromHTTPResponseCode_def)
qed

theorem C6_witness:
  "CodeFromHTTPStatus 204 = codes_OK
   \<and> ErrorFromHTTPResponseCode (\<lambda>d. Some d) (\<lambda>c. ''No Content'') 204 ''ignored'' = None"
  using C6_success_codes [of 204 "\<lambda>d. Some d" "\<lambda>c. ''No Content''" "''ignored''"]
  by simp

text \<open>
  C7: for an HTTP status outside 200..299 and a detail string of at least 63 bytes,
  \<open>ErrorFromHTTPResponseCode\<close> returns an error. Its status has the translated code and
  the reason phrase as message. The ErrorInfo handed to \<open>WithDetails\<close> has the reason
  phrase as reason, the domain \<^verbatim>\<open>dapr.io\<close>, \<^verbatim>\<open>http.code\<close> the decimal code and
  \<^verbatim>\<open>http.error_message\<close> the first 63 bytes of the detail string; when it packs, the
  status carries it as its one detail, and when packing fails the bare status is returned.
\<close>

theorem C7_error_info_detail:
  assumes "\<not> (200 \<le> httpCode \<and> httpCode \<le> 299)" and "63 \<le> length detail"
  shows "ErrorFromHTTPResponseCode marshal StatusText httpCode detail =
           Some \<lparr>code = CodeFromHTTPStatus httpCode, message = StatusText httpCode,
                  details =
                    (case marshal
                            \<lparr>Reason = StatusText httpCode, Domain = ''dapr.io'',
                             Metadata = [''http.code'' \<mapsto> Itoa httpCode,
                                         ''http.error_message'' \<mapsto> take 63 detail]\<rparr> of
                       None \<Rightarrow> []
                     | Some m \<Rightarrow> [m])\<rparr>
       \<and> length (take 63 detail) = 63
       \<and> CodeFromHTTPStatus httpCode \<noteq> codes_OK"
proof -
  have ne: "CodeFromHTTPStatus httpCode \<noteq> codes_OK"
    using assms(1) by (auto simp add: CodeFromHTTPStatus_OK_iff)
  have len: "length (take 63 detail) = 63"
    using assms(2) by simp
  show ?thesis
    using ne len assms(2)
    by (cases "marshal \<lparr>Reason = StatusText httpCode, Domain = ''dapr.io'',
                   Metadata = [''http.code'' \<mapsto> Itoa httpCode,
                               ''http.error_message'' \<mapsto> take 63 detail]\<rparr>")
       (simp_all add: ErrorFromHTTPResponseCode_def Let_def WithDetails_def Err_def
          grpcStatus_New_def maxMetadataValueLen_def errorInfoDomain_def
          errorInfoHTTPCodeMetadata_def errorInfoHTTPErrorMetadata_def)
qed

theorem C7_witness:
  "ErrorFromHTTPResponseCode (\<lambda>d. Some d) (\<lambda>c. if c = 404 then ''Not Found'' else [])
     404 (replicate 100 (CHR ''x'')) =
   Some \<lparr>code = codes_NotFound, message = ''Not Found'',
          details = [\<lparr>Reason = ''Not Found'', Domain = ''dapr.io'',
                      Metadata = [''http.code'' \<mapsto> ''404'',
                                  ''http.error_message'' \<mapsto> replicate 63 (CHR ''x'')]\<rparr>]\<rparr>"
proof -
  have c: "CodeFromHTTPStatus 404 = codes_NotFound"
    by (simp add: CodeFromHTTPStatus_def http_defs)
  have i: "Itoa 404 = ''404''"
    by (simp add: Itoa_def natToDec.simps [of 404] natToDec.simps [of 40] natToDec.simps [of 4]
        char_of_eq_iff)
  show ?thesis
    using C7_error_info_detail [where httpCode = 404 and detail = "replicate 100 (CHR ''x'')"
        and StatusText = "\<lambda>c. if c = 404 then ''Not Found'' else []"
        and marshal = "\<lambda>d. Some d"]
    by (simp add: c i)
qed

section \<open>Metrics recorder: theorems\<close>

lemma IsEnabled_nil: "\<not> IsEnabled None"
  by (simp add: IsEnabled_def)

lemma IsEnabled_new: "\<not> IsEnabled newGRPCMetrics"
  by (simp add: IsEnabled_def newGRPCMetrics_def)

lemma IsEnabled_Init: "IsEnabled (Some (Init g app))"
  by (simp add: IsEnabled_def Init_def)

text \<open>
  C9: on a recorder that is not enabled (a \<^verbatim>\<open>nil\<close> receiver, or one never initialised)
  each of the five recording operations returns at its guard: whatever the arguments,
  the recorder's measurements are what they were. (No operation writes the struct, so
  there is no other state to change.)
\<close>

theorem C9_disabled_recorder_records_nothing:
  assumes "\<not> IsEnabled g"
  shows "ServerRequestSent g meter now method status reqContentSize resContentSize start = meter
       \<and> ClientRequestReceived g meter now method status reqContentSize resContentSize start = meter
       \<and> StreamServerRequestSent g meter now method status start = meter
       \<and> StreamClientRequestSent g meter now method status start = meter
       \<and> AppHealthProbeCompleted g meter now status start = meter"
  using assms
  by (simp add: ServerRequestSent_def ClientRequestReceived_def StreamServerRequestSent_def
      StreamClientRequestSent_def AppHealthProbeCompleted_def)

theorem C9_witness:
  "\<not> IsEnabled newGRPCMetrics
   \<and> ServerRequestSent newGRPCMetrics [] 5000000 ''/pkg.Svc/Call'' ''OK'' 10 20 0 = []
   \<and> ClientRequestReceived newGRPCMetrics [] 5000000 ''/pkg.Svc/Call'' ''OK'' 10 20 0 = []
   \<and> StreamServerRequestSent newGRPCMetrics [] 5000000 ''/pkg.Svc/Call'' ''OK'' 0 = []
   \<and> StreamClientRequestSent newGRPCMetrics [] 5000000 ''/pkg.Svc/Call'' ''OK'' 0 = []
   \<and> AppHealthProbeCompleted None [] 5000000 ''OK'' 0 = []"
  using C9_disabled_recorder_records_nothing [OF IsEnabled_new, of "[]" 5000000 "''/pkg.Svc/Call''" "''OK''" 10 20 0]
        C9_disabled_recorder_records_nothing [OF IsEnabled_nil, of "[]" 5000000 "''/pkg.Svc/Call''" "''OK''" 10 20 0]
        IsEnabled_new
  by simp

text \<open>The guard is what makes the difference: once initialised, a completion is recorded.\<close>

lemma enabled_recorder_records:
  "length (ServerRequestSent (Some (Init g app)) meter now method status rq rs start)
     = length meter + 4
   \<and> length (AppHealthProbeCompleted (Some (Init g app)) meter now status start)
     = length meter + 2"
  by (simp add: ServerRequestSent_def AppHealthProbeCompleted_def IsEnabled_Init Let_def)

section \<open>Metadata bridge: lemmas\<close>

lemmas key_defs =
  TraceparentHeader_def TracestateHeader_def GRPCTraceContextKey_def DestinationIDHeader_def
  BaggageHeader_def ContentTypeHeader_def DaprHeaderPrefix_def gRPCBinaryMetadataSuffix_def
  GRPCContentType_def

lemmas lower_defs = lower_def ToLower_def isASCII_def lowerByte_def char_of_eq_iff

lemma lower_trace_keys:
  "lower E TraceparentHeader = TraceparentHeader"
  "lower E TracestateHeader = TracestateHeader"
  "lower E GRPCTraceContextKey = GRPCTraceContextKey"
  by (simp_all add: key_defs lower_defs)

lemma trace_keys_distinct:
  "TraceparentHeader \<noteq> TracestateHeader" "TraceparentHeader \<noteq> GRPCTraceContextKey"
  "TracestateHeader \<noteq> GRPCTraceContextKey" "TracestateHeader \<noteq> TraceparentHeader"
  "GRPCTraceContextKey \<noteq> TraceparentHeader" "GRPCTraceContextKey \<noteq> TracestateHeader"
  by (simp_all add: key_defs)

lemma MD_Set_single: "MD_Set E md k [v] = md(lower E k \<mapsto> [v])"
  by (simp add: MD_Set_def)

lemma setAll_headers:
  "setAll E md (SpanContextToHTTPHeaders E sc) =
    (case TraceStateToW3CString E sc of
       None \<Rightarrow> md(TraceparentHeader \<mapsto> [SpanContextToW3CString E sc])
     | Some h \<Rightarrow> md(TraceparentHeader \<mapsto> [SpanContextToW3CString E sc],
                     TracestateHeader \<mapsto> [h]))"
  by (simp add: setAll_def SpanContextToHTTPHeaders_def MD_Set_single lower_trace_keys
      split: option.split)

lemma setAll_traceparent:
  "setAll E md (SpanContextToHTTPHeaders E sc) TraceparentHeader
     = Some [SpanContextToW3CString E sc]"
  by (simp add: setAll_headers trace_keys_distinct split: option.split)

lemma setAll_tracestate:
  "TraceStateToW3CString E sc = Some h \<Longrightarrow>
   setAll E md (SpanContextToHTTPHeaders E sc) TracestateHeader = Some [h]"
  by (simp add: setAll_headers)

lemma setAll_other:
  "key \<noteq> TraceparentHeader \<Longrightarrow> key \<noteq> TracestateHeader \<Longrightarrow>
   setAll E md (SpanContextToHTTPHeaders E sc) key = md key"
  by (simp add: setAll_headers split: option.split)

text \<open>What the trace step leaves under a key that is not a trace key.\<close>

lemma processHTTPToGRPC_other:
  "key \<noteq> TraceparentHeader \<Longrightarrow> key \<noteq> TracestateHeader \<Longrightarrow> key \<noteq> GRPCTraceContextKey \<Longrightarrow>
   processHTTPToGRPCTraceHeader E ctx md tp ts key = md key"
  by (simp add: processHTTPToGRPCTraceHeader_def Let_def MD_Set_single lower_trace_keys
      setAll_other)

lemma processGRPCToGRPC_other:
  "key \<noteq> TraceparentHeader \<Longrightarrow> key \<noteq> TracestateHeader \<Longrightarrow> key \<noteq> GRPCTraceContextKey \<Longrightarrow>
   processGRPCToGRPCTraceHeader E ctx md gtb key = md key"
  by (simp add: processGRPCToGRPCTraceHeader_def Let_def MD_Set_single lower_trace_keys
      setAll_other split: prod.split option.split)

text \<open>The HTTP-to-gRPC step, by the span context it settles on.\<close>

lemma processHTTPToGRPC_ambient:
  assumes "SpanContextFromW3CString E tp = None"
  shows "processHTTPToGRPCTraceHeader E ctx md tp ts GRPCTraceContextKey
            = Some [BinaryFromSpanContext E (SpanFromContext E ctx)]"
    and "processHTTPToGRPCTraceHeader E ctx md tp ts TraceparentHeader
            = Some [SpanContextToW3CString E (SpanFromContext E ctx)]"
    and "TraceStateToW3CString E (SpanFromContext E ctx) = Some h \<Longrightarrow>
         processHTTPToGRPCTraceHeader E ctx md tp ts TracestateHeader = Some [h]"
  using assms
  by (simp_all add: processHTTPToGRPCTraceHeader_def Let_def MD_Set_single lower_trace_keys
        setAll_traceparent setAll_tracestate trace_keys_distinct)

lemma processGRPCToGRPC_malformed:
  assumes "gtb \<noteq> []" and "\<not> snd (DecodeString gtb)"
  shows "processGRPCToGRPCTraceHeader E ctx md gtb = md"
  using assms
  by (auto simp add: processGRPCToGRPCTraceHeader_def split: prod.split)

text \<open>The values the loop of \<open>InternalMetadataToGrpcMetadata\<close> captures.\<close>

lemma grpcStep_captured:
  assumes "grpcStep E conv (k, listVal) (tp, ts, gtb, m) = Inr (tp', ts', gtb', m')"
  shows "(tp' = tp \<or> (\<exists>v vs. listVal = v # vs \<and> lower E k = TraceparentHeader \<and> tp' = v))
       \<and> (gtb' = gtb \<or> (\<exists>v vs. listVal = v # vs \<and> lower E k = GRPCTraceContextKey \<and> gtb' = v))"
  using assms by (auto simp add: Let_def split: if_splits list.splits)

lemma grpcLoop_captured:
  assumes "grpcLoop E conv md (tp, ts, gtb, m) = Inr (tp', ts', gtb', m')"
  shows "(tp' = tp \<or> (\<exists>k v vs. (k, v # vs) \<in> set md \<and> lower E k = TraceparentHeader \<and> tp' = v))
       \<and> (gtb' = gtb \<or> (\<exists>k v vs. (k, v # vs) \<in> set md \<and> lower E k = GRPCTraceContextKey \<and> gtb' = v))"
  using assms
proof (induction md arbitrary: tp ts gtb m)
  case Nil
  then show ?case by simp
next
  case (Cons e md)
  obtain k listVal where e: "e = (k, listVal)" by (cases e)
  from Cons.prems obtain tp1 ts1 gtb1 m1 where
    step: "grpcStep E conv (k, listVal) (tp, ts, gtb, m) = Inr (tp1, ts1, gtb1, m1)" and
    rest: "grpcLoop E conv md (tp1, ts1, gtb1, m1) = Inr (tp', ts', gtb', m')"
    unfolding e by (auto split: sum.splits)
  note s = grpcStep_captured [OF step] and r = Cons.IH [OF rest]
  have "tp' = tp \<or> (\<exists>k v vs. (k, v # vs) \<in> set (e # md) \<and> lower E k = TraceparentHeader \<and> tp' = v)"
    using s r unfolding e by (metis list.set_intros(1,2))
  moreover
  have "gtb' = gtb \<or> (\<exists>k v vs. (k, v # vs) \<in> set (e # md) \<and> lower E k = GRPCTraceContextKey \<and> gtb' = v)"
    using s r unfolding e by (metis list.set_intros(1,2))
  ultimately show ?case by blast
qed

subsection \<open>Where the bridge panics\<close>

lemma panic_only: "(p :: panic) = IndexOutOfRange"
  by (cases p) simp

lemma grpcStep_panic_iff:
  "(\<exists>p. grpcStep E conv (k, listVal) st = Inl p) \<longleftrightarrow>
   listVal = [] \<and> (lower E k = TraceparentHeader \<or> lower E k = TracestateHeader
                    \<or> lower E k = GRPCTraceContextKey)"
  by (cases st) (auto simp add: Let_def split: list.splits)

lemma grpcLoop_panic_iff:
  "(\<exists>p. grpcLoop E conv md st = Inl p) \<longleftrightarrow>
   (\<exists>(k, listVal) \<in> set md. listVal = [] \<and>
      (lower E k = TraceparentHeader \<or> lower E k = TracestateHeader
       \<or> lower E k = GRPCTraceContextKey))"
proof (induction md arbitrary: st)
  case Nil
  show ?case by simp
next
  case (Cons e md)
  obtain k listVal where e: "e = (k, listVal)" by (cases e)
  show ?case
  proof (cases "grpcStep E conv (k, listVal) st")
    case (Inl p)
    then have "listVal = [] \<and> (lower E k = TraceparentHeader \<or> lower E k = TracestateHeader
                    \<or> lower E k = GRPCTraceContextKey)"
      using grpcStep_panic_iff [of E conv k listVal st] by blast
    with Inl show ?thesis unfolding e by simp
  next
    case (Inr st')
    then have "\<not> (listVal = [] \<and> (lower E k = TraceparentHeader \<or> lower E k = TracestateHeader
                    \<or> lower E k = GRPCTraceContextKey))"
      using grpcStep_panic_iff [of E conv k listVal st] by auto
    with Inr Cons.IH [of st'] show ?thesis unfolding e by auto
  qed
qed

lemma IsGRPCProtocol_panic_iff:
  "(\<exists>p. IsGRPCProtocol md = Inl p) \<longleftrightarrow> map_of md ContentTypeHeader = Some []"
  by (auto simp add: IsGRPCProtocol_def split: option.splits list.splits)

lemma InternalMetadataToGrpcMetadata_panic_iff:
  "(\<exists>p. InternalMetadataToGrpcMetadata E ctx md conv = Inl p) \<longleftrightarrow>
   (\<exists>(k, listVal) \<in> set md. listVal = [] \<and>
      (lower E k = TraceparentHeader \<or> lower E k = TracestateHeader
       \<or> lower E k = GRPCTraceContextKey))
   \<or> map_of md ContentTypeHeader = Some []"
proof (cases "grpcLoop E conv md ([], [], [], Map.empty)")
  case (Inl p)
  then have "\<exists>p. grpcLoop E conv md ([], [], [], Map.empty) = Inl p" by blast
  then have "\<exists>(k, listVal) \<in> set md. listVal = [] \<and>
      (lower E k = TraceparentHeader \<or> lower E k = TracestateHeader
       \<or> lower E k = GRPCTraceContextKey)"
    using grpcLoop_panic_iff [of E conv md "([], [], [], Map.empty)"] by blast
  with Inl show ?thesis by (simp add: InternalMetadataToGrpcMetadata_def)
next
  case (Inr st)
  then have "\<not> (\<exists>p. grpcLoop E conv md ([], [], [], Map.empty) = Inl p)" by simp
  then have no: "\<not> (\<exists>(k, listVal) \<in> set md. listVal = [] \<and>
      (lower E k = TraceparentHeader \<or> lower E k = TracestateHeader
       \<or> lower E k = GRPCTraceContextKey))"
    using grpcLoop_panic_iff [of E conv md "([], [], [], Map.empty)"] by blast
  obtain tp ts gtb m where st: "st = (tp, ts, gtb, m)" by (cases st)
  have "(\<exists>p. InternalMetadataToGrpcMetadata E ctx md conv = Inl p) \<longleftrightarrow>
        (\<exists>p. IsGRPCProtocol md = Inl p)"
    using Inr st by (auto simp add: InternalMetadataToGrpcMetadata_def split: sum.splits bool.splits)
  then show ?thesis using no IsGRPCProtocol_panic_iff [of md] by blast
qed

lemma InternalMetadataToHTTPHeader_panic_iff:
  "(\<exists>p. InternalMetadataToHTTPHeader E ctx md = Inl p) \<longleftrightarrow>
   map_of md ContentTypeHeader = Some []"
proof -
  have "(\<exists>p. InternalMetadataToHTTPHeader E ctx md = Inl p) \<longleftrightarrow>
        (\<exists>p. IsGRPCProtocol md = Inl p)"
    by (auto simp add: InternalMetadataToHTTPHeader_def split: prod.splits sum.splits bool.splits)
  then show ?thesis using IsGRPCProtocol_panic_iff [of md] by blast
qed

lemma httpLoop_skips_empty:
  "httpLoop E (filter (\<lambda>(k, listVal). listVal \<noteq> []) md) st = httpLoop E md st"
  by (induction md arbitrary: st) auto

lemma no_empty_lookup:
  assumes "\<forall>(k, listVal) \<in> set md. listVal \<noteq> []"
  shows "map_of md key \<noteq> Some []"
proof
  assume "map_of md key = Some []"
  then have "(key, []) \<in> set md" by (rule map_of_SomeD)
  with assms show False by auto
qed

text \<open>
  C10: \<open>IsGRPCProtocol\<close> panics exactly when the \<^verbatim>\<open>content-type\<close> key is stored with no
  value, and \<open>InternalMetadataToGrpcMetadata\<close> panics exactly when that is so or a key
  that lower-cases to \<^verbatim>\<open>traceparent\<close>, \<^verbatim>\<open>tracestate\<close> or \<^verbatim>\<open>grpc-trace-bin\<close> is stored
  with no value. So both return whenever every stored key has at least one value. The
  loop of \<open>InternalMetadataToHTTPHeader\<close> skips entries without values: it runs as if
  they were not there, and the function panics only through its call of
  \<open>IsGRPCProtocol\<close>.
\<close>

theorem C10_panics_on_empty_value_list:
  "(IsGRPCProtocol md = Inl IndexOutOfRange \<longleftrightarrow> map_of md ContentTypeHeader = Some [])
   \<and> (InternalMetadataToGrpcMetadata E ctx md conv = Inl IndexOutOfRange \<longleftrightarrow>
        (\<exists>(k, listVal) \<in> set md. listVal = [] \<and>
           (lower E k = TraceparentHeader \<or> lower E k = TracestateHeader
            \<or> lower E k = GRPCTraceContextKey))
        \<or> map_of md ContentTypeHeader = Some [])
   \<and> ((\<forall>(k, listVal) \<in> set md. listVal \<noteq> []) \<longrightarrow>
        (\<exists>b. IsGRPCProtocol md = Inr b)
        \<and> (\<exists>out. InternalMetadataToGrpcMetadata E ctx md conv = Inr out))
   \<and> httpLoop E (filter (\<lambda>(k, listVal). listVal \<noteq> []) md) st = httpLoop E md st
   \<and> (InternalMetadataToHTTPHeader E ctx md = Inl IndexOutOfRange \<longleftrightarrow>
        map_of md ContentTypeHeader = Some [])"
proof -
  have ex: "\<And>r :: panic + 'z. (\<exists>p. r = Inl p) \<longleftrightarrow> r = Inl IndexOutOfRange"
    using panic_only by metis
  have a: "IsGRPCProtocol md = Inl IndexOutOfRange \<longleftrightarrow> map_of md ContentTypeHeader = Some []"
    using IsGRPCProtocol_panic_iff [of md] by (simp only: ex)
  have b: "InternalMetadataToGrpcMetadata E ctx md conv = Inl IndexOutOfRange \<longleftrightarrow>
        (\<exists>(k, listVal) \<in> set md. listVal = [] \<and>
           (lower E k = TraceparentHeader \<or> lower E k = TracestateHeader
            \<or> lower E k = GRPCTraceContextKey))
        \<or> map_of md ContentTypeHeader = Some []"
    using InternalMetadataToGrpcMetadata_panic_iff [of E ctx md conv] by (simp only: ex)
  have e: "InternalMetadataToHTTPHeader E ctx md = Inl IndexOutOfRange \<longleftrightarrow>
        map_of md ContentTypeHeader = Some []"
    using InternalMetadataToHTTPHeader_panic_iff [of E ctx md] by (simp only: ex)
  have c: "(\<exists>b. IsGRPCProtocol md = Inr b)
        \<and> (\<exists>out. InternalMetadataToGrpcMetadata E ctx md conv = Inr out)"
    if ne: "\<forall>(k, listVal) \<in> set md. listVal \<noteq> []"
  proof -
    have 1: "map_of md ContentTypeHeader \<noteq> Some []"
      using ne by (rule no_empty_lookup)
    have 2: "\<not> (\<exists>(k, listVal) \<in> set md. listVal = [] \<and>
           (lower E k = TraceparentHeader \<or> lower E k = TracestateHeader
            \<or> lower E k = GRPCTraceContextKey))"
      using ne by auto
    have "IsGRPCProtocol md \<noteq> Inl IndexOutOfRange" using a 1 by simp
    moreover have "InternalMetadataToGrpcMetadata E ctx md conv \<noteq> Inl IndexOutOfRange"
      using b 1 2 by simp
    ultimately show ?thesis
      by (metis panic_only sum.exhaust)
  qed
  show ?thesis using a b c e httpLoop_skips_empty [of E md st] by blast
qed

theorem C10_witness:
  "IsGRPCProtocol [(''content-type'', [])] = Inl IndexOutOfRange
   \<and> InternalMetadataToGrpcMetadata sampleEnv sampleCtx [(''Traceparent'', [])] False
       = Inl IndexOutOfRange
   \<and> InternalMetadataToGrpcMetadata sampleEnv sampleCtx [(''content-type'', [])] False
       = Inl IndexOutOfRange
   \<and> (\<exists>out. InternalMetadataToGrpcMetadata sampleEnv sampleCtx
               [(''content-type'', [''application/json'']), (''traceparent'', [''t''])] False
             = Inr out)
   \<and> InternalMetadataToHTTPHeader sampleEnv sampleCtx [(''Traceparent'', [])]
       \<noteq> Inl IndexOutOfRange
   \<and> InternalMetadataToHTTPHeader sampleEnv sampleCtx [(''content-type'', [])]
       = Inl IndexOutOfRange"
proof -
  have l: "lower sampleEnv ''Traceparent'' = ''traceparent''"
    by (simp add: lower_defs)
  show ?thesis
    using C10_panics_on_empty_value_list [of "[(''content-type'', [])]" sampleEnv sampleCtx False]
          C10_panics_on_empty_value_list [of "[(''Traceparent'', [])]" sampleEnv sampleCtx False]
          C10_panics_on_empty_value_list
            [of "[(''content-type'', [''application/json'']), (''traceparent'', [''t''])]"
                sampleEnv sampleCtx False]
    by (simp add: l key_defs)
qed

subsection \<open>Evaluating the bridge at concrete inputs\<close>

lemmas b64_eval =
  DecodeString_def isNewline_def decodeMap_def encodeStd_def padChar_def quantumBytes_def
  upt_rec char_of_eq_iff

lemmas bridge_eval =
  InternalMetadataToGrpcMetadata_def InternalMetadataToHTTPHeader_def IsGRPCProtocol_def
  HasPrefix_def HasSuffix_def lower_defs key_defs isPermanentHTTPHeader_def
  processGRPCToGRPCTraceHeader_def processHTTPToGRPCTraceHeader_def
  processGRPCToHTTPTraceHeaders_def processHTTPToHTTPTraceHeaders_def
  ReservedGRPCMetadataToDaprPrefixHeader_def
  MD_Set_def MD_Append_def setAll_def SpanContextToHTTPHeaders_def Let_def
  sampleEnv_def sampleCtx_def

subsection \<open>Trace propagation\<close>

lemma InternalMetadataToGrpcMetadata_HTTP:
  assumes "IsGRPCProtocol md = Inr False"
      and "InternalMetadataToGrpcMetadata E ctx md conv = Inr out"
  obtains tp ts gtb m where
    "grpcLoop E conv md ([], [], [], Map.empty) = Inr (tp, ts, gtb, m)"
    "out = processHTTPToGRPCTraceHeader E ctx m tp ts"
  using assms
  by (auto simp add: InternalMetadataToGrpcMetadata_def split: sum.splits)

text \<open>
  C4 (on the model of \<open>SpanContextToHTTPHeaders\<close> the spec gives): for metadata that is
  not of gRPC origin and has no key that lower-cases to \<^verbatim>\<open>traceparent\<close>, with a W3C
  parser that rejects the empty string, the outgoing metadata has \<^verbatim>\<open>grpc-trace-bin\<close>
  set to the binary form of the ambient span context and \<^verbatim>\<open>traceparent\<close> set to its W3C
  form, and \<^verbatim>\<open>tracestate\<close> too whenever the ambient span context has one.
\<close>

theorem C4_http_without_traceparent:
  assumes "IsGRPCProtocol md = Inr False"
      and "\<forall>(k, listVal) \<in> set md. lower E k \<noteq> TraceparentHeader"
      and "SpanContextFromW3CString E [] = None"
      and "InternalMetadataToGrpcMetadata E ctx md conv = Inr out"
  shows "out GRPCTraceContextKey = Some [BinaryFromSpanContext E (SpanFromContext E ctx)]
       \<and> out TraceparentHeader = Some [SpanContextToW3CString E (SpanFromContext E ctx)]
       \<and> (\<forall>h. TraceStateToW3CString E (SpanFromContext E ctx) = Some h
              \<longrightarrow> out TracestateHeader = Some [h])"
proof -
  from assms(1,4) obtain tp ts gtb m where
    loop: "grpcLoop E conv md ([], [], [], Map.empty) = Inr (tp, ts, gtb, m)" and
    out: "out = processHTTPToGRPCTraceHeader E ctx m tp ts"
    by (rule InternalMetadataToGrpcMetadata_HTTP)
  have "tp = []"
    using grpcLoop_captured [OF loop] assms(2) by auto
  then have none: "SpanContextFromW3CString E tp = None"
    using assms(3) by simp
  show ?thesis
    unfolding out using processHTTPToGRPC_ambient [OF none] by simp
qed

theorem C4_witness:
  "\<exists>out. InternalMetadataToGrpcMetadata sampleEnv
            (''00-0af7651916cd43dd8448eb211c80319c-b7ad6b7169203331-01'', ''vendor=1'')
            [(''content-type'', [''application/json'']), (''user-agent'', [''curl''])] False
          = Inr out
     \<and> out ''grpc-trace-bin''
          = Some [CHR 0x00 # ''00-0af7651916cd43dd8448eb211c80319c-b7ad6b7169203331-01'']
     \<and> out ''traceparent''
          = Some [''00-0af7651916cd43dd8448eb211c80319c-b7ad6b7169203331-01'']
     \<and> out ''tracestate'' = Some [''vendor=1'']"
proof -
  let ?ctx = "(''00-0af7651916cd43dd8448eb211c80319c-b7ad6b7169203331-01'', ''vendor=1'')"
  let ?md = "[(''content-type'', [''application/json'']), (''user-agent'', [''curl''])]"
  have "\<not> (\<exists>p. InternalMetadataToGrpcMetadata sampleEnv ?ctx ?md False = Inl p)"
    by (simp add: InternalMetadataToGrpcMetadata_panic_iff key_defs)
  then obtain out where out: "InternalMetadataToGrpcMetadata sampleEnv ?ctx ?md False = Inr out"
    by (meson sum.exhaust)
  have h1: "IsGRPCProtocol ?md = Inr False"
    by (simp add: IsGRPCProtocol_def HasPrefix_def key_defs)
  have h2: "\<forall>(k, listVal) \<in> set ?md. lower sampleEnv k \<noteq> TraceparentHeader"
    by (simp add: lower_defs key_defs)
  have h3: "SpanContextFromW3CString sampleEnv [] = None"
    by (simp add: sampleEnv_def)
  show ?thesis
    using C4_http_without_traceparent [OF h1 h2 h3 out] out
    by (simp add: sampleEnv_def key_defs)
qed

text \<open>The trace values the two loops capture are the inbound values.\<close>

lemma grpcStep_inbound:
  assumes "grpcStep E conv (k, listVal) (tp, ts, gtb, m) = Inr (tp', ts', gtb', m')"
  shows "tp' = (case listVal of [] \<Rightarrow> tp | v # _ \<Rightarrow> if lower E k = TraceparentHeader then v else tp)"
    and "ts' = (case listVal of [] \<Rightarrow> ts | v # _ \<Rightarrow> if lower E k = TracestateHeader then v else ts)"
    and "gtb' = (case listVal of [] \<Rightarrow> gtb | v # _ \<Rightarrow> if lower E k = GRPCTraceContextKey then v else gtb)"
  using assms
  by (auto simp add: Let_def trace_keys_distinct split: if_splits list.splits)

lemma grpcLoop_inbound:
  assumes "grpcLoop E conv md (tp, ts, gtb, m) = Inr (tp', ts', gtb', m')"
  shows "tp' = inboundFrom E TraceparentHeader md tp
       \<and> ts' = inboundFrom E TracestateHeader md ts
       \<and> gtb' = inboundFrom E GRPCTraceContextKey md gtb"
  using assms
proof (induction md arbitrary: tp ts gtb m)
  case Nil
  then show ?case by simp
next
  case (Cons e md)
  obtain k listVal where e: "e = (k, listVal)" by (cases e)
  from Cons.prems obtain tp1 ts1 gtb1 m1 where
    step: "grpcStep E conv (k, listVal) (tp, ts, gtb, m) = Inr (tp1, ts1, gtb1, m1)" and
    rest: "grpcLoop E conv md (tp1, ts1, gtb1, m1) = Inr (tp', ts', gtb', m')"
    unfolding e by (auto split: sum.splits)
  show ?case
    unfolding e using Cons.IH [OF rest] grpcStep_inbound [OF step] by simp
qed

lemma httpStep_inbound:
  assumes "httpStep E (k, listVal) (tp, ts, gtb, hs) = (tp', ts', gtb', hs')"
  shows "tp' = (case listVal of [] \<Rightarrow> tp | v # _ \<Rightarrow> if lower E k = TraceparentHeader then v else tp)"
    and "ts' = (case listVal of [] \<Rightarrow> ts | v # _ \<Rightarrow> if lower E k = TracestateHeader then v else ts)"
    and "gtb' = (case listVal of [] \<Rightarrow> gtb | v # _ \<Rightarrow> if lower E k = GRPCTraceContextKey then v else gtb)"
  using assms
  by (cases listVal; auto simp add: Let_def trace_keys_distinct split: if_splits)+

lemma httpLoop_inbound:
  assumes "httpLoop E md (tp, ts, gtb, hs) = (tp', ts', gtb', hs')"
  shows "tp' = inboundFrom E TraceparentHeader md tp
       \<and> ts' = inboundFrom E TracestateHeader md ts
       \<and> gtb' = inboundFrom E GRPCTraceContextKey md gtb"
  using assms
proof (induction md arbitrary: tp ts gtb hs)
  case Nil
  then show ?case by simp
next
  case (Cons e md)
  obtain k listVal where e: "e = (k, listVal)" by (cases e)
  obtain tp1 ts1 gtb1 hs1 where
    step: "httpStep E (k, listVal) (tp, ts, gtb, hs) = (tp1, ts1, gtb1, hs1)"
    by (cases "httpStep E (k, listVal) (tp, ts, gtb, hs)")
  with Cons.prems have rest: "httpLoop E md (tp1, ts1, gtb1, hs1) = (tp', ts', gtb', hs')"
    unfolding e by simp
  show ?case
    unfolding e using Cons.IH [OF rest] httpStep_inbound [OF step] by simp
qed

text \<open>The inbound value, read off the entries.\<close>

lemma inboundFrom_last:
  "inboundFrom E key md cur =
     (case filter (\<lambda>(k, listVal). listVal \<noteq> [] \<and> lower E k = key) md of
        [] \<Rightarrow> cur
      | e # es \<Rightarrow> hd (snd (last (e # es))))"
proof (induction md arbitrary: cur)
  case Nil
  then show ?case by simp
next
  case (Cons e md)
  obtain k listVal where e: "e = (k, listVal)" by (cases e)
  show ?case
    unfolding e
    by (cases listVal) (auto simp add: Cons.IH split: list.splits)
qed

lemma inbound_last:
  "inbound E key md =
     (case filter (\<lambda>(k, listVal). listVal \<noteq> [] \<and> lower E k = key) md of
        [] \<Rightarrow> []
      | e # es \<Rightarrow> hd (snd (last (e # es))))"
  unfolding inbound_def by (rule inboundFrom_last)

text \<open>Each bridge function is its loop followed by the trace step of its path.\<close>

lemma InternalMetadataToGrpcMetadata_eq:
  assumes "InternalMetadataToGrpcMetadata E ctx md conv = Inr out"
  shows "IsGRPCProtocol md = Inr True \<Longrightarrow>
           out = processGRPCToGRPCTraceHeader E ctx (copiedMD E conv md)
                   (inbound E GRPCTraceContextKey md)"
    and "IsGRPCProtocol md = Inr False \<Longrightarrow>
           out = processHTTPToGRPCTraceHeader E ctx (copiedMD E conv md)
                   (inbound E TraceparentHeader md) (inbound E TracestateHeader md)"
proof -
  from assms obtain tp ts gtb m where
    loop: "grpcLoop E conv md ([], [], [], Map.empty) = Inr (tp, ts, gtb, m)"
    by (auto simp add: InternalMetadataToGrpcMetadata_def split: sum.splits)
  note i = grpcLoop_inbound [OF loop]
  have c: "copiedMD E conv md = m" by (simp add: copiedMD_def loop)
  show "IsGRPCProtocol md = Inr True \<Longrightarrow>
           out = processGRPCToGRPCTraceHeader E ctx (copiedMD E conv md)
                   (inbound E GRPCTraceContextKey md)"
    using assms i by (simp add: InternalMetadataToGrpcMetadata_def loop c inbound_def)
  show "IsGRPCProtocol md = Inr False \<Longrightarrow>
           out = processHTTPToGRPCTraceHeader E ctx (copiedMD E conv md)
                   (inbound E TraceparentHeader md) (inbound E TracestateHeader md)"
    using assms i by (simp add: InternalMetadataToGrpcMetadata_def loop c inbound_def)
qed

lemma InternalMetadataToHTTPHeader_eq:
  assumes "InternalMetadataToHTTPHeader E ctx md = Inr hs"
  shows "IsGRPCProtocol md = Inr True \<Longrightarrow>
           hs = writtenHeaders E md
                @ processGRPCToHTTPTraceHeaders E ctx (inbound E GRPCTraceContextKey md)"
    and "IsGRPCProtocol md = Inr False \<Longrightarrow>
           hs = writtenHeaders E md
                @ processHTTPToHTTPTraceHeaders E ctx (inbound E TraceparentHeader md)
                    (inbound E TracestateHeader md)"
proof -
  obtain tp ts gtb hs0 where
    loop: "httpLoop E md ([], [], [], []) = (tp, ts, gtb, hs0)"
    by (cases "httpLoop E md ([], [], [], [])")
  note i = httpLoop_inbound [OF loop]
  have w: "writtenHeaders E md = hs0" by (simp add: writtenHeaders_def loop)
  show "IsGRPCProtocol md = Inr True \<Longrightarrow>
           hs = writtenHeaders E md
                @ processGRPCToHTTPTraceHeaders E ctx (inbound E GRPCTraceContextKey md)"
    using assms i by (simp add: InternalMetadataToHTTPHeader_def loop w inbound_def)
  show "IsGRPCProtocol md = Inr False \<Longrightarrow>
           hs = writtenHeaders E md
                @ processHTTPToHTTPTraceHeaders E ctx (inbound E TraceparentHeader md)
                    (inbound E TracestateHeader md)"
    using assms i by (simp add: InternalMetadataToHTTPHeader_def loop w inbound_def)
qed


text \<open>The trace steps that write metadata, key by key.\<close>

lemma processHTTPToGRPC_keys:
  "(let sc = (case SpanContextFromW3CString E tp of
                Some sc' \<Rightarrow> WithTraceState E sc' (TraceStateFromW3CString E ts)
              | None \<Rightarrow> SpanFromContext E ctx)
    in processHTTPToGRPCTraceHeader E ctx md tp ts GRPCTraceContextKey
         = Some [BinaryFromSpanContext E sc]
     \<and> processHTTPToGRPCTraceHeader E ctx md tp ts TraceparentHeader
         = Some [SpanContextToW3CString E sc]
     \<and> (\<forall>h. TraceStateToW3CString E sc = Some h \<longrightarrow>
            processHTTPToGRPCTraceHeader E ctx md tp ts TracestateHeader = Some [h]))"
  by (simp add: processHTTPToGRPCTraceHeader_def Let_def MD_Set_single lower_trace_keys
      setAll_traceparent setAll_tracestate trace_keys_distinct)

lemma processGRPCToGRPC_empty:
  "processGRPCToGRPCTraceHeader E ctx md [] GRPCTraceContextKey
     = Some [BinaryFromSpanContext E (SpanFromContext E ctx)]
   \<and> processGRPCToGRPCTraceHeader E ctx md [] TraceparentHeader
     = Some [SpanContextToW3CString E (SpanFromContext E ctx)]
   \<and> (\<forall>h. TraceStateToW3CString E (SpanFromContext E ctx) = Some h \<longrightarrow>
          processGRPCToGRPCTraceHeader E ctx md [] TracestateHeader = Some [h])"
  by (simp add: processGRPCToGRPCTraceHeader_def Let_def MD_Set_single lower_trace_keys
      setAll_traceparent setAll_tracestate trace_keys_distinct)

lemma processGRPCToGRPC_valid:
  assumes "gtb \<noteq> []" and "snd (DecodeString gtb)"
  shows "(let decoded = fst (DecodeString gtb) in
          processGRPCToGRPCTraceHeader E ctx md gtb GRPCTraceContextKey = Some [decoded]
          \<and> (case SpanContextFromBinary E decoded of
                Some sc \<Rightarrow>
                  processGRPCToGRPCTraceHeader E ctx md gtb TraceparentHeader
                    = Some [SpanContextToW3CString E sc]
                  \<and> (\<forall>h. TraceStateToW3CString E sc = Some h \<longrightarrow>
                         processGRPCToGRPCTraceHeader E ctx md gtb TracestateHeader = Some [h])
              | None \<Rightarrow>
                  processGRPCToGRPCTraceHeader E ctx md gtb
                    = md(GRPCTraceContextKey \<mapsto> [decoded])))"
proof -
  obtain decoded where d: "DecodeString gtb = (decoded, True)"
    using assms(2) by (cases "DecodeString gtb") simp
  show ?thesis
    using assms(1)
    by (cases "SpanContextFromBinary E decoded")
       (simp_all add: processGRPCToGRPCTraceHeader_def d Let_def MD_Set_single lower_trace_keys
          setAll_traceparent setAll_tracestate trace_keys_distinct)
qed

text \<open>The loop of \<open>InternalMetadataToHTTPHeader\<close> writes no \<^verbatim>\<open>traceparent\<close> header itself.\<close>

lemma ReservedGRPCMetadataToDaprPrefixHeader_not_traceparent:
  assumes "key \<noteq> TraceparentHeader"
  shows "ReservedGRPCMetadataToDaprPrefixHeader key \<noteq> TraceparentHeader"
    and "TraceparentHeader \<noteq> ReservedGRPCMetadataToDaprPrefixHeader key"
  using assms by (auto simp add: ReservedGRPCMetadataToDaprPrefixHeader_def key_defs)

lemma httpStep_no_traceparent:
  assumes "httpStep E e (tp, ts, gtb, hs) = (tp', ts', gtb', hs')"
      and "\<forall>(h, v) \<in> set hs. h \<noteq> TraceparentHeader"
  shows "\<forall>(h, v) \<in> set hs'. h \<noteq> TraceparentHeader"
proof -
  obtain k listVal where e: "e = (k, listVal)" by (cases e)
  have b: "BaggageHeader \<noteq> TraceparentHeader" "TraceparentHeader \<noteq> BaggageHeader"
    by (simp_all add: key_defs)
  show ?thesis
  proof (cases listVal)
    case Nil
    with assms show ?thesis unfolding e by simp
  next
    case (Cons v vals)
    show ?thesis
    proof (cases "lower E k = TraceparentHeader")
      case True
      with assms Cons show ?thesis unfolding e by (simp add: Let_def)
    next
      case False
      note r = ReservedGRPCMetadataToDaprPrefixHeader_not_traceparent [OF False]
      have "set hs' \<subseteq> set hs \<union> {(BaggageHeader, v)}
              \<union> Pair (ReservedGRPCMetadataToDaprPrefixHeader (lower E k)) ` set (v # vals)"
        using assms(1) unfolding e Cons
        by (auto simp add: Let_def split: if_splits)
      then show ?thesis using assms(2) b r by fastforce
    qed
  qed
qed

lemma httpLoop_no_traceparent:
  assumes "httpLoop E md (tp, ts, gtb, hs) = (tp', ts', gtb', hs')"
      and "\<forall>(h, v) \<in> set hs. h \<noteq> TraceparentHeader"
  shows "\<forall>(h, v) \<in> set hs'. h \<noteq> TraceparentHeader"
  using assms
proof (induction md arbitrary: tp ts gtb hs)
  case Nil
  then show ?case by simp
next
  case (Cons e md)
  obtain tp1 ts1 gtb1 hs1 where
    step: "httpStep E e (tp, ts, gtb, hs) = (tp1, ts1, gtb1, hs1)"
    by (cases "httpStep E e (tp, ts, gtb, hs)")
  with Cons.prems(1) have rest: "httpLoop E md (tp1, ts1, gtb1, hs1) = (tp', ts', gtb', hs')"
    by simp
  from httpStep_no_traceparent [OF step Cons.prems(2)]
  have "\<forall>(h, v) \<in> set hs1. h \<noteq> TraceparentHeader" .
  from Cons.IH [OF rest this] show ?case .
qed

lemma writtenHeaders_no_traceparent:
  "(TraceparentHeader, v) \<notin> set (writtenHeaders E md)"
proof -
  obtain tp ts gtb hs0 where
    loop: "httpLoop E md ([], [], [], []) = (tp, ts, gtb, hs0)"
    by (cases "httpLoop E md ([], [], [], [])")
  have "\<forall>(h, v) \<in> set hs0. h \<noteq> TraceparentHeader"
    using httpLoop_no_traceparent [OF loop] by simp
  then show ?thesis by (auto simp add: writtenHeaders_def loop)
qed

text \<open>
  C1, as the code has it, path by path, for a call that does not panic. The inbound
  value of a trace key is the one the loop has captured (\<open>inbound\<close>; the empty string
  when the key is absent).
  \<^item> HTTP to gRPC: the span context is the parsed inbound \<^verbatim>\<open>traceparent\<close> with the
    inbound \<^verbatim>\<open>tracestate\<close>, and the ambient span context when the \<^verbatim>\<open>traceparent\<close> does
    not parse; \<^verbatim>\<open>grpc-trace-bin\<close> is set to its binary form, \<^verbatim>\<open>traceparent\<close> to its W3C
    form, and \<^verbatim>\<open>tracestate\<close> to its trace state when it has one.
  \<^item> gRPC to gRPC, inbound token empty: the same three keys, from the ambient span
    context.
  \<^item> gRPC to gRPC, inbound token not empty and valid base64: \<^verbatim>\<open>grpc-trace-bin\<close> is set
    to the decoded bytes; if they parse as a span context, \<^verbatim>\<open>traceparent\<close> and
    \<^verbatim>\<open>tracestate\<close> are set from it, and if they do not, the trace step adds nothing
    else to the copied metadata.
  \<^item> gRPC to gRPC, inbound token not empty and not valid base64: the outgoing
    metadata is the copied metadata, the trace step adds nothing.
  \<^item> gRPC to HTTP: after the copied headers come the headers of the span context
    parsed from what the token decodes to (the decoding error is ignored), else of the
    ambient span context; its \<^verbatim>\<open>traceparent\<close> is the only \<^verbatim>\<open>traceparent\<close> header written.
  \<^item> HTTP to HTTP: an inbound \<^verbatim>\<open>traceparent\<close> that is not empty is written as it is,
    followed by the inbound \<^verbatim>\<open>tracestate\<close> if that is not empty; with an empty one the
    headers of the ambient span context are written. Either way it is the only
    \<^verbatim>\<open>traceparent\<close> header written.
\<close>

theorem C1_trace_emission_by_path:
  "(IsGRPCProtocol md = Inr False \<longrightarrow>
      InternalMetadataToGrpcMetadata E ctx md conv = Inr out \<longrightarrow>
      (let sc = (case SpanContextFromW3CString E (inbound E TraceparentHeader md) of
                   Some sc' \<Rightarrow>
                     WithTraceState E sc'
                       (TraceStateFromW3CString E (inbound E TracestateHeader md))
                 | None \<Rightarrow> SpanFromContext E ctx)
       in out GRPCTraceContextKey = Some [BinaryFromSpanContext E sc]
        \<and> out TraceparentHeader = Some [SpanContextToW3CString E sc]
        \<and> (\<forall>h. TraceStateToW3CString E sc = Some h \<longrightarrow> out TracestateHeader = Some [h])))
   \<and> (IsGRPCProtocol md = Inr True \<longrightarrow>
      InternalMetadataToGrpcMetadata E ctx md conv = Inr out \<longrightarrow>
      inbound E GRPCTraceContextKey md = [] \<longrightarrow>
      out GRPCTraceContextKey = Some [BinaryFromSpanContext E (SpanFromContext E ctx)]
      \<and> out TraceparentHeader = Some [SpanContextToW3CString E (SpanFromContext E ctx)]
      \<and> (\<forall>h. TraceStateToW3CString E (SpanFromContext E ctx) = Some h
             \<longrightarrow> out TracestateHeader = Some [h]))
   \<and> (IsGRPCProtocol md = Inr True \<longrightarrow>
      InternalMetadataToGrpcMetadata E ctx md conv = Inr out \<longrightarrow>
      inbound E GRPCTraceContextKey md \<noteq> [] \<longrightarrow>
      snd (DecodeString (inbound E GRPCTraceContextKey md)) \<longrightarrow>
      (let decoded = fst (DecodeString (inbound E GRPCTraceContextKey md))
       in out GRPCTraceContextKey = Some [decoded]
        \<and> (case SpanContextFromBinary E decoded of
              Some sc \<Rightarrow>
                out TraceparentHeader = Some [SpanContextToW3CString E sc]
                \<and> (\<forall>h. TraceStateToW3CString E sc = Some h
                       \<longrightarrow> out TracestateHeader = Some [h])
            | None \<Rightarrow> out = (copiedMD E conv md)(GRPCTraceContextKey \<mapsto> [decoded]))))
   \<and> (IsGRPCProtocol md = Inr True \<longrightarrow>
      InternalMetadataToGrpcMetadata E ctx md conv = Inr out \<longrightarrow>
      inbound E GRPCTraceContextKey md \<noteq> [] \<longrightarrow>
      \<not> snd (DecodeString (inbound E GRPCTraceContextKey md)) \<longrightarrow>
      out = copiedMD E conv md)
   \<and> (IsGRPCProtocol md = Inr True \<longrightarrow>
      InternalMetadataToHTTPHeader E ctx md = Inr hs \<longrightarrow>
      (let sc = (case SpanContextFromBinary E
                        (fst (DecodeString (inbound E GRPCTraceContextKey md))) of
                   Some sc' \<Rightarrow> sc'
                 | None \<Rightarrow> SpanFromContext E ctx)
       in hs = writtenHeaders E md @ SpanContextToHTTPHeaders E sc
        \<and> (\<forall>v. (TraceparentHeader, v) \<in> set hs \<longleftrightarrow> v = SpanContextToW3CString E sc)))
   \<and> (IsGRPCProtocol md = Inr False \<longrightarrow>
      InternalMetadataToHTTPHeader E ctx md = Inr hs \<longrightarrow>
      (let tp = inbound E TraceparentHeader md; ts = inbound E TracestateHeader md
       in (tp \<noteq> [] \<longrightarrow>
             hs = writtenHeaders E md
                  @ (TraceparentHeader, tp) # (if ts = [] then [] else [(TracestateHeader, ts)])
             \<and> (\<forall>v. (TraceparentHeader, v) \<in> set hs \<longleftrightarrow> v = tp))
        \<and> (tp = [] \<longrightarrow>
             hs = writtenHeaders E md @ SpanContextToHTTPHeaders E (SpanFromContext E ctx)
             \<and> (\<forall>v. (TraceparentHeader, v) \<in> set hs
                    \<longleftrightarrow> v = SpanContextToW3CString E (SpanFromContext E ctx)))))"
proof -
  have hdr: "\<And>sc v. (TraceparentHeader, v) \<in> set (SpanContextToHTTPHeaders E sc)
                \<longleftrightarrow> v = SpanContextToW3CString E sc"
    by (auto simp add: SpanContextToHTTPHeaders_def trace_keys_distinct split: option.splits)
  have p1: "(let sc = (case SpanContextFromW3CString E (inbound E TraceparentHeader md) of
                   Some sc' \<Rightarrow>
                     WithTraceState E sc'
                       (TraceStateFromW3CString E (inbound E TracestateHeader md))
                 | None \<Rightarrow> SpanFromContext E ctx)
       in out GRPCTraceContextKey = Some [BinaryFromSpanContext E sc]
        \<and> out TraceparentHeader = Some [SpanContextToW3CString E sc]
        \<and> (\<forall>h. TraceStateToW3CString E sc = Some h \<longrightarrow> out TracestateHeader = Some [h]))"
    if "IsGRPCProtocol md = Inr False" "InternalMetadataToGrpcMetadata E ctx md conv = Inr out"
    unfolding InternalMetadataToGrpcMetadata_eq(2) [OF that(2) that(1)]
    by (rule processHTTPToGRPC_keys)
  have p2: "out GRPCTraceContextKey = Some [BinaryFromSpanContext E (SpanFromContext E ctx)]
      \<and> out TraceparentHeader = Some [SpanContextToW3CString E (SpanFromContext E ctx)]
      \<and> (\<forall>h. TraceStateToW3CString E (SpanFromContext E ctx) = Some h
             \<longrightarrow> out TracestateHeader = Some [h])"
    if "IsGRPCProtocol md = Inr True" "InternalMetadataToGrpcMetadata E ctx md conv = Inr out"
       "inbound E GRPCTraceContextKey md = []"
    unfolding InternalMetadataToGrpcMetadata_eq(1) [OF that(2) that(1)] that(3)
    by (rule processGRPCToGRPC_empty)
  have p3: "(let decoded = fst (DecodeString (inbound E GRPCTraceContextKey md))
       in out GRPCTraceContextKey = Some [decoded]
        \<and> (case SpanContextFromBinary E decoded of
              Some sc \<Rightarrow>
                out TraceparentHeader = Some [SpanContextToW3CString E sc]
                \<and> (\<forall>h. TraceStateToW3CString E sc = Some h
                       \<longrightarrow> out TracestateHeader = Some [h])
            | None \<Rightarrow> out = (copiedMD E conv md)(GRPCTraceContextKey \<mapsto> [decoded])))"
    if "IsGRPCProtocol md = Inr True" "InternalMetadataToGrpcMetadata E ctx md conv = Inr out"
       "inbound E GRPCTraceContextKey md \<noteq> []"
       "snd (DecodeString (inbound E GRPCTraceContextKey md))"
    unfolding InternalMetadataToGrpcMetadata_eq(1) [OF that(2) that(1)]
    using that(3,4) by (rule processGRPCToGRPC_valid)
  have p3': "out = copiedMD E conv md"
    if "IsGRPCProtocol md = Inr True" "InternalMetadataToGrpcMetadata E ctx md conv = Inr out"
       "inbound E GRPCTraceContextKey md \<noteq> []"
       "\<not> snd (DecodeString (inbound E GRPCTraceContextKey md))"
    unfolding InternalMetadataToGrpcMetadata_eq(1) [OF that(2) that(1)]
    using that(3,4) by (rule processGRPCToGRPC_malformed)
  have p4: "(let sc = (case SpanContextFromBinary E
                        (fst (DecodeString (inbound E GRPCTraceContextKey md))) of
                   Some sc' \<Rightarrow> sc'
                 | None \<Rightarrow> SpanFromContext E ctx)
       in hs = writtenHeaders E md @ SpanContextToHTTPHeaders E sc
        \<and> (\<forall>v. (TraceparentHeader, v) \<in> set hs \<longleftrightarrow> v = SpanContextToW3CString E sc))"
    if "IsGRPCProtocol md = Inr True" "InternalMetadataToHTTPHeader E ctx md = Inr hs"
    unfolding InternalMetadataToHTTPHeader_eq(1) [OF that(2) that(1)]
    by (simp add: processGRPCToHTTPTraceHeaders_def Let_def writtenHeaders_no_traceparent hdr
        split: option.splits)
  have p5: "(let tp = inbound E TraceparentHeader md; ts = inbound E TracestateHeader md
       in (tp \<noteq> [] \<longrightarrow>
             hs = writtenHeaders E md
                  @ (TraceparentHeader, tp) # (if ts = [] then [] else [(TracestateHeader, ts)])
             \<and> (\<forall>v. (TraceparentHeader, v) \<in> set hs \<longleftrightarrow> v = tp))
        \<and> (tp = [] \<longrightarrow>
             hs = writtenHeaders E md @ SpanContextToHTTPHeaders E (SpanFromContext E ctx)
             \<and> (\<forall>v. (TraceparentHeader, v) \<in> set hs
                    \<longleftrightarrow> v = SpanContextToW3CString E (SpanFromContext E ctx))))"
    if "IsGRPCProtocol md = Inr False" "InternalMetadataToHTTPHeader E ctx md = Inr hs"
    unfolding InternalMetadataToHTTPHeader_eq(2) [OF that(2) that(1)]
    by (auto simp add: processHTTPToHTTPTraceHeaders_def Let_def writtenHeaders_no_traceparent
        hdr trace_keys_distinct)
  show ?thesis using p1 p2 p3 p3' p4 p5 by blast
qed


text \<open>
  C1 as stated fails. On the gRPC-to-gRPC path, with an inbound \<^verbatim>\<open>grpc-trace-bin\<close>
  that is not valid base64 the outgoing metadata carries the copied \<^verbatim>\<open>content-type\<close>
  and no trace key at all. On the HTTP-to-HTTP path an inbound \<^verbatim>\<open>traceparent\<close> that is
  not a W3C trace context is written out as it is, with no fallback to the ambient span.
\<close>

theorem C1_counterexample:
  "InternalMetadataToGrpcMetadata sampleEnv sampleCtx
     [(''content-type'', [''application/grpc'']), (''grpc-trace-bin'', [''!!!''])] False
   = Inr [''content-type'' \<mapsto> [''application/grpc'']]
   \<and> InternalMetadataToHTTPHeader sampleEnv sampleCtx
       [(''traceparent'', [''not-a-traceparent''])]
     = Inr [(''traceparent'', ''not-a-traceparent'')]"
  by (simp add: bridge_eval DecodeString_def isNewline_def)

theorem C1_witness:
  "(\<exists>out. InternalMetadataToGrpcMetadata sampleEnv sampleCtx
             [(''traceparent'', [''not-a-traceparent''])] False = Inr out
          \<and> out ''grpc-trace-bin''
              = Some [CHR 0x00 # ''00-0af7651916cd43dd8448eb211c80319c-b7ad6b7169203331-01'']
          \<and> out ''traceparent''
              = Some [''00-0af7651916cd43dd8448eb211c80319c-b7ad6b7169203331-01''])
   \<and> (\<exists>out. InternalMetadataToGrpcMetadata sampleEnv sampleCtx
             [(''traceparent'', [''00-4bf92f3577b34da6a3ce929d0e0e4736-00f067aa0ba902b7-01'']),
              (''tracestate'', [''vendor=1''])] False = Inr out
          \<and> out ''grpc-trace-bin''
              = Some [CHR 0x00 # ''00-4bf92f3577b34da6a3ce929d0e0e4736-00f067aa0ba902b7-01'']
          \<and> out ''traceparent''
              = Some [''00-4bf92f3577b34da6a3ce929d0e0e4736-00f067aa0ba902b7-01'']
          \<and> out ''tracestate'' = Some [''vendor=1''])
   \<and> (\<exists>out. InternalMetadataToGrpcMetadata sampleEnv sampleCtx
             [(''content-type'', [''application/grpc''])] False = Inr out
          \<and> out ''grpc-trace-bin''
              = Some [CHR 0x00 # ''00-0af7651916cd43dd8448eb211c80319c-b7ad6b7169203331-01'']
          \<and> out ''traceparent''
              = Some [''00-0af7651916cd43dd8448eb211c80319c-b7ad6b7169203331-01''])
   \<and> (\<exists>out. InternalMetadataToGrpcMetadata sampleEnv sampleCtx
             [(''content-type'', [''application/grpc'']), (''grpc-trace-bin'', [''aGk=''])]
             False = Inr out
          \<and> out = [''content-type'' \<mapsto> [''application/grpc''],
                    ''grpc-trace-bin'' \<mapsto> [''hi'']])
   \<and> (\<exists>out. InternalMetadataToGrpcMetadata sampleEnv sampleCtx
             [(''content-type'', [''application/grpc'']), (''grpc-trace-bin'', [''!!!''])]
             False = Inr out
          \<and> out = [''content-type'' \<mapsto> [''application/grpc'']])
   \<and> (\<exists>hs. InternalMetadataToHTTPHeader sampleEnv sampleCtx
             [(''content-type'', [''application/grpc'']), (''grpc-trace-bin'', [''!!!''])]
             = Inr hs
          \<and> hs = [(''traceparent'',
                    ''00-0af7651916cd43dd8448eb211c80319c-b7ad6b7169203331-01'')])
   \<and> (\<exists>hs. InternalMetadataToHTTPHeader sampleEnv sampleCtx
             [(''user-agent'', [''curl'']), (''traceparent'', [''not-a-traceparent''])] = Inr hs
          \<and> hs = [(''user-agent'', ''curl''), (''traceparent'', ''not-a-traceparent'')])
   \<and> (\<exists>hs. InternalMetadataToHTTPHeader sampleEnv sampleCtx
             [(''user-agent'', [''curl''])] = Inr hs
          \<and> hs = [(''user-agent'', ''curl''),
                   (''traceparent'',
                    ''00-0af7651916cd43dd8448eb211c80319c-b7ad6b7169203331-01'')])"
proof -
  let ?h = "[(''traceparent'', [''not-a-traceparent''])]"
  let ?v = "[(''traceparent'', [''00-4bf92f3577b34da6a3ce929d0e0e4736-00f067aa0ba902b7-01'']),
             (''tracestate'', [''vendor=1''])]"
  let ?e = "[(''content-type'', [''application/grpc''])]"
  let ?g = "[(''content-type'', [''application/grpc'']), (''grpc-trace-bin'', [''aGk=''])]"
  let ?b = "[(''content-type'', [''application/grpc'']), (''grpc-trace-bin'', [''!!!''])]"
  let ?u = "[(''user-agent'', [''curl'']), (''traceparent'', [''not-a-traceparent''])]"
  let ?w = "[(''user-agent'', [''curl''])]"
  have ph: "IsGRPCProtocol ?h = Inr False" and pv: "IsGRPCProtocol ?v = Inr False"
    and pe: "IsGRPCProtocol ?e = Inr True" and pg: "IsGRPCProtocol ?g = Inr True"
    and pb: "IsGRPCProtocol ?b = Inr True" and pu: "IsGRPCProtocol ?u = Inr False"
    and pw: "IsGRPCProtocol ?w = Inr False"
    by (simp_all add: IsGRPCProtocol_def HasPrefix_def key_defs)
  have "\<not> (\<exists>p. InternalMetadataToGrpcMetadata sampleEnv sampleCtx ?h False = Inl p)"
    by (simp add: InternalMetadataToGrpcMetadata_panic_iff key_defs)
  then obtain o1 where o1: "InternalMetadataToGrpcMetadata sampleEnv sampleCtx ?h False = Inr o1"
    by (meson sum.exhaust)
  have "\<not> (\<exists>p. InternalMetadataToGrpcMetadata sampleEnv sampleCtx ?v False = Inl p)"
    by (simp add: InternalMetadataToGrpcMetadata_panic_iff key_defs)
  then obtain o2 where o2: "InternalMetadataToGrpcMetadata sampleEnv sampleCtx ?v False = Inr o2"
    by (meson sum.exhaust)
  have "\<not> (\<exists>p. InternalMetadataToGrpcMetadata sampleEnv sampleCtx ?e False = Inl p)"
    by (simp add: InternalMetadataToGrpcMetadata_panic_iff key_defs)
  then obtain o3 where o3: "InternalMetadataToGrpcMetadata sampleEnv sampleCtx ?e False = Inr o3"
    by (meson sum.exhaust)
  have "\<not> (\<exists>p. InternalMetadataToGrpcMetadata sampleEnv sampleCtx ?g False = Inl p)"
    by (simp add: InternalMetadataToGrpcMetadata_panic_iff key_defs)
  then obtain o4 where o4: "InternalMetadataToGrpcMetadata sampleEnv sampleCtx ?g False = Inr o4"
    by (meson sum.exhaust)
  have "\<not> (\<exists>p. InternalMetadataToGrpcMetadata sampleEnv sampleCtx ?b False = Inl p)"
    by (simp add: InternalMetadataToGrpcMetadata_panic_iff key_defs)
  then obtain o5 where o5: "InternalMetadataToGrpcMetadata sampleEnv sampleCtx ?b False = Inr o5"
    by (meson sum.exhaust)
  have "\<not> (\<exists>p. InternalMetadataToHTTPHeader sampleEnv sampleCtx ?b = Inl p)"
    by (simp add: InternalMetadataToHTTPHeader_panic_iff key_defs)
  then obtain h5 where h5: "InternalMetadataToHTTPHeader sampleEnv sampleCtx ?b = Inr h5"
    by (meson sum.exhaust)
  have "\<not> (\<exists>p. InternalMetadataToHTTPHeader sampleEnv sampleCtx ?u = Inl p)"
    by (simp add: InternalMetadataToHTTPHeader_panic_iff key_defs)
  then obtain h6 where h6: "InternalMetadataToHTTPHeader sampleEnv sampleCtx ?u = Inr h6"
    by (meson sum.exhaust)
  have "\<not> (\<exists>p. InternalMetadataToHTTPHeader sampleEnv sampleCtx ?w = Inl p)"
    by (simp add: InternalMetadataToHTTPHeader_panic_iff key_defs)
  then obtain h7 where h7: "InternalMetadataToHTTPHeader sampleEnv sampleCtx ?w = Inr h7"
    by (meson sum.exhaust)
  note ev = inbound_def lower_defs key_defs sampleEnv_def sampleCtx_def Let_def
  have ih: "inbound sampleEnv TraceparentHeader ?h = ''not-a-traceparent''"
    and ihs: "inbound sampleEnv TracestateHeader ?h = []"
    and iv: "inbound sampleEnv TraceparentHeader ?v
               = ''00-4bf92f3577b34da6a3ce929d0e0e4736-00f067aa0ba902b7-01''"
    and ivs: "inbound sampleEnv TracestateHeader ?v = ''vendor=1''"
    and ie: "inbound sampleEnv GRPCTraceContextKey ?e = []"
    and ig: "inbound sampleEnv GRPCTraceContextKey ?g = ''aGk=''"
    and ib: "inbound sampleEnv GRPCTraceContextKey ?b = ''!!!''"
    and iu: "inbound sampleEnv TraceparentHeader ?u = ''not-a-traceparent''"
    and ius: "inbound sampleEnv TracestateHeader ?u = []"
    and iw: "inbound sampleEnv TraceparentHeader ?w = []"
    by (simp_all add: ev)
  have dg: "DecodeString ''aGk='' = (''hi'', True)"
    by (simp add: b64_eval)
  have db: "DecodeString ''!!!'' = ([], False)"
    by (simp add: b64_eval)
  have cg: "copiedMD sampleEnv False ?g = [''content-type'' \<mapsto> [''application/grpc'']]"
    and cb: "copiedMD sampleEnv False ?b = [''content-type'' \<mapsto> [''application/grpc'']]"
    by (simp_all add: copiedMD_def bridge_eval)
  have wb: "writtenHeaders sampleEnv ?b = []"
    and wu: "writtenHeaders sampleEnv ?u = [(''user-agent'', ''curl'')]"
    and ww: "writtenHeaders sampleEnv ?w = [(''user-agent'', ''curl'')]"
    by (simp_all add: writtenHeaders_def bridge_eval)
  note t1 = C1_trace_emission_by_path [of ?h sampleEnv sampleCtx False o1 h6]
  note t2 = C1_trace_emission_by_path [of ?v sampleEnv sampleCtx False o2 h6]
  note t3 = C1_trace_emission_by_path [of ?e sampleEnv sampleCtx False o3 h5]
  note t4 = C1_trace_emission_by_path [of ?g sampleEnv sampleCtx False o4 h5]
  note t5 = C1_trace_emission_by_path [of ?b sampleEnv sampleCtx False o5 h5]
  note t6 = C1_trace_emission_by_path [of ?u sampleEnv sampleCtx False o1 h6]
  note t7 = C1_trace_emission_by_path [of ?w sampleEnv sampleCtx False o1 h7]
  have c1: "o1 ''grpc-trace-bin''
              = Some [CHR 0x00 # ''00-0af7651916cd43dd8448eb211c80319c-b7ad6b7169203331-01'']
          \<and> o1 ''traceparent''
              = Some [''00-0af7651916cd43dd8448eb211c80319c-b7ad6b7169203331-01'']"
    using t1 ph o1 unfolding ih ihs
    by (simp add: key_defs sampleEnv_def sampleCtx_def Let_def)
  have c2: "o2 ''grpc-trace-bin''
              = Some [CHR 0x00 # ''00-4bf92f3577b34da6a3ce929d0e0e4736-00f067aa0ba902b7-01'']
          \<and> o2 ''traceparent''
              = Some [''00-4bf92f3577b34da6a3ce929d0e0e4736-00f067aa0ba902b7-01'']
          \<and> o2 ''tracestate'' = Some [''vendor=1'']"
    using t2 pv o2 unfolding iv ivs
    by (simp add: key_defs sampleEnv_def sampleCtx_def Let_def)
  have c3: "o3 ''grpc-trace-bin''
              = Some [CHR 0x00 # ''00-0af7651916cd43dd8448eb211c80319c-b7ad6b7169203331-01'']
          \<and> o3 ''traceparent''
              = Some [''00-0af7651916cd43dd8448eb211c80319c-b7ad6b7169203331-01'']"
    using t3 pe o3 unfolding ie
    by (simp add: key_defs sampleEnv_def sampleCtx_def Let_def)
  have c4: "o4 = [''content-type'' \<mapsto> [''application/grpc''],
                  ''grpc-trace-bin'' \<mapsto> [''hi'']]"
    using t4 pg o4 unfolding ig dg cg
    by (simp add: key_defs sampleEnv_def sampleCtx_def Let_def)
  have c4': "o5 = [''content-type'' \<mapsto> [''application/grpc'']]"
    using t5 pb o5 unfolding ib db cb by simp
  have c5: "h5 = [(''traceparent'',
                    ''00-0af7651916cd43dd8448eb211c80319c-b7ad6b7169203331-01'')]"
    using t5 pb h5 unfolding ib db wb
    by (simp add: key_defs sampleEnv_def sampleCtx_def SpanContextToHTTPHeaders_def Let_def)
  have c6: "h6 = [(''user-agent'', ''curl''), (''traceparent'', ''not-a-traceparent'')]"
    using t6 pu h6 unfolding iu ius wu by (simp add: key_defs Let_def)
  have c7: "h7 = [(''user-agent'', ''curl''),
                   (''traceparent'',
                    ''00-0af7651916cd43dd8448eb211c80319c-b7ad6b7169203331-01'')]"
    using t7 pw h7 unfolding iw ww
    by (simp add: key_defs sampleEnv_def sampleCtx_def SpanContextToHTTPHeaders_def Let_def)
  show ?thesis
    using o1 o2 o3 o4 o5 h5 h6 h7 c1 c2 c3 c4 c4' c5 c6 c7 by blast
qed


subsection \<open>Lower-casing ASCII keys\<close>

lemma of_char_lowerByte:
  assumes "(of_char c :: nat) < 128"
  shows "(of_char (lowerByte c) :: nat) < 128"
    and "\<not> (65 \<le> (of_char (lowerByte c) :: nat) \<and> (of_char (lowerByte c) :: nat) \<le> 90)"
  using assms by (auto simp add: lowerByte_def Let_def)

lemma lowerByte_idem:
  assumes "(of_char c :: nat) < 128"
  shows "lowerByte (lowerByte c) = lowerByte c"
  using of_char_lowerByte(2) [OF assms] by (auto simp add: lowerByte_def [of "lowerByte c"] Let_def)

lemma isASCII_append: "isASCII (xs @ ys) \<longleftrightarrow> isASCII xs \<and> isASCII ys"
  by (simp add: isASCII_def)

lemma isASCII_map_lowerByte: "isASCII s \<Longrightarrow> isASCII (map lowerByte s)"
  by (induction s) (simp_all add: isASCII_def of_char_lowerByte(1))

lemma map_lowerByte_idem: "isASCII s \<Longrightarrow> map lowerByte (map lowerByte s) = map lowerByte s"
  by (induction s) (simp_all add: isASCII_def lowerByte_idem)

lemma lower_ascii: "isASCII k \<Longrightarrow> lower E k = map lowerByte k"
  by (simp add: lower_def ToLower_def)

lemma isASCII_lower: "isASCII k \<Longrightarrow> isASCII (lower E k)"
  by (simp add: lower_ascii isASCII_map_lowerByte)

lemma lower_idem: "isASCII k \<Longrightarrow> lower E (lower E k) = lower E k"
  by (simp only: lower_ascii isASCII_map_lowerByte map_lowerByte_idem)

lemma lower_dapr_prefix:
  assumes "isASCII k"
  shows "lower E (DaprHeaderPrefix @ lower E k) = DaprHeaderPrefix @ lower E k"
proof -
  have p: "isASCII DaprHeaderPrefix" "map lowerByte DaprHeaderPrefix = DaprHeaderPrefix"
    by (simp_all add: key_defs isASCII_def lowerByte_def char_of_eq_iff)
  have "isASCII (DaprHeaderPrefix @ lower E k)"
    using assms p(1) by (simp add: isASCII_append isASCII_lower)
  then have "lower E (DaprHeaderPrefix @ lower E k) = map lowerByte (DaprHeaderPrefix @ lower E k)"
    by (rule lower_ascii)
  also have "\<dots> = DaprHeaderPrefix @ lower E k"
    using assms p(2) by (simp only: lower_ascii map_lowerByte_idem map_append)
  finally show ?thesis .
qed

lemma HasSuffix_lower:
  assumes "isASCII k" and "HasSuffix k gRPCBinaryMetadataSuffix"
  shows "HasSuffix (lower E k) gRPCBinaryMetadataSuffix"
proof -
  have s: "map lowerByte gRPCBinaryMetadataSuffix = gRPCBinaryMetadataSuffix"
    by (simp add: key_defs lowerByte_def char_of_eq_iff)
  from assms(2) have "length gRPCBinaryMetadataSuffix \<le> length k"
    and d: "drop (length k - length gRPCBinaryMetadataSuffix) k = gRPCBinaryMetadataSuffix"
    by (simp_all add: HasSuffix_def)
  then have "drop (length k - length gRPCBinaryMetadataSuffix) (map lowerByte k)
      = gRPCBinaryMetadataSuffix"
    by (simp add: drop_map s)
  then show ?thesis
    using assms by (simp add: HasSuffix_def lower_ascii)
qed

lemma bin_key_plain:
  assumes "HasSuffix k gRPCBinaryMetadataSuffix"
  shows "k \<noteq> ContentTypeHeader" "\<not> isPermanentHTTPHeader k"
proof -
  show "k \<noteq> ContentTypeHeader" using assms by (auto simp add: HasSuffix_def key_defs)
  show "\<not> isPermanentHTTPHeader k"
    using assms by (auto simp add: HasSuffix_def key_defs isPermanentHTTPHeader_def)
qed

lemma bin_key_not_diverted:
  assumes "isASCII k" and "HasSuffix k gRPCBinaryMetadataSuffix"
  shows "lower E k \<noteq> TraceparentHeader" "lower E k \<noteq> TracestateHeader"
    "lower E k \<noteq> DestinationIDHeader"
proof -
  note h = HasSuffix_lower [OF assms, of E]
  show "lower E k \<noteq> TraceparentHeader" using h by (auto simp add: HasSuffix_def key_defs)
  show "lower E k \<noteq> TracestateHeader" using h by (auto simp add: HasSuffix_def key_defs)
  show "lower E k \<noteq> DestinationIDHeader" using h by (auto simp add: HasSuffix_def key_defs)
qed

lemma permanent_header_plain:
  assumes "isPermanentHTTPHeader k"
  shows "isASCII k" "\<not> HasSuffix k gRPCBinaryMetadataSuffix"
proof -
  show "isASCII k"
    using assms by (auto simp add: isPermanentHTTPHeader_def isASCII_def)
  show "\<not> HasSuffix k gRPCBinaryMetadataSuffix"
    using assms by (auto simp add: isPermanentHTTPHeader_def HasSuffix_def key_defs)
qed

lemma permanent_header_not_diverted:
  assumes "isPermanentHTTPHeader k"
  shows "lower E k \<noteq> TraceparentHeader" "lower E k \<noteq> TracestateHeader"
    "lower E k \<noteq> GRPCTraceContextKey" "lower E k \<noteq> DestinationIDHeader"
proof -
  show "lower E k \<noteq> TraceparentHeader"
    using assms by (auto simp add: isPermanentHTTPHeader_def lower_defs key_defs)
  show "lower E k \<noteq> TracestateHeader"
    using assms by (auto simp add: isPermanentHTTPHeader_def lower_defs key_defs)
  show "lower E k \<noteq> GRPCTraceContextKey"
    using assms by (auto simp add: isPermanentHTTPHeader_def lower_defs key_defs)
  show "lower E k \<noteq> DestinationIDHeader"
    using assms by (auto simp add: isPermanentHTTPHeader_def lower_defs key_defs)
qed

lemma dapr_key_not_trace:
  "DaprHeaderPrefix @ x \<noteq> TraceparentHeader" "DaprHeaderPrefix @ x \<noteq> TracestateHeader"
  "DaprHeaderPrefix @ x \<noteq> GRPCTraceContextKey"
  by (simp_all add: key_defs)

subsection \<open>What the loop copies\<close>

lemma MD_Append_twice:
  "MD_Append E (MD_Append E md key xs) key ys = MD_Append E md key (xs @ ys)"
  by (cases "xs = []"; cases "ys = []") (simp_all add: MD_Append_def Let_def)

lemma decodedValues_Cons:
  "decodedValues (v # vals) =
    (if snd (DecodeString v) then fst (DecodeString v) # decodedValues vals
     else decodedValues vals)"
  by (simp add: decodedValues_def)

lemma appendDecoded_eq:
  "appendDecoded E md key vals = MD_Append E md key (decodedValues vals)"
proof (induction vals arbitrary: md)
  case Nil
  show ?case by (simp add: decodedValues_def MD_Append_def)
next
  case (Cons v vals)
  obtain d ok where d: "DecodeString v = (d, ok)" by (cases "DecodeString v")
  show ?case
  proof (cases ok)
    case True
    have "appendDecoded E md key (v # vals)
        = MD_Append E (MD_Append E md key [d]) key (decodedValues vals)"
      using d True by (simp add: Cons.IH)
    also have "\<dots> = MD_Append E md key ([d] @ decodedValues vals)"
      by (rule MD_Append_twice)
    finally show ?thesis using d True by (simp add: decodedValues_Cons)
  next
    case False
    then show ?thesis using d by (simp add: Cons.IH decodedValues_Cons)
  qed
qed

lemma decodedValues_filter:
  "decodedValues (filter (\<lambda>v. snd (DecodeString v)) vals) = decodedValues vals"
  by (simp add: decodedValues_def)

lemma decodedValues_mem:
  "v \<in> set vals \<Longrightarrow> snd (DecodeString v) \<Longrightarrow> fst (DecodeString v) \<in> set (decodedValues vals)"
  by (auto simp add: decodedValues_def)

lemma decodedValues_encoded: "EncodeToString b \<in> set vals \<Longrightarrow> b \<in> set (decodedValues vals)"
  using decodedValues_mem [of "EncodeToString b" vals]
  by (simp add: DecodeString_EncodeToString)

lemma MD_Append_carries_new:
  "vals \<noteq> [] \<Longrightarrow> carries (MD_Append E md key vals) (lower E key) vals"
  by (simp add: carries_def MD_Append_def Let_def)

lemma MD_Append_carries_keep:
  "carries md key' vs \<Longrightarrow> carries (MD_Append E md key vals) key' vs"
  by (auto simp add: carries_def MD_Append_def Let_def)

text \<open>The pass for an entry that is not diverted.\<close>

lemma grpcStep_copy:
  assumes "lower E k \<noteq> TraceparentHeader" "lower E k \<noteq> TracestateHeader"
    "lower E k \<noteq> GRPCTraceContextKey" "lower E k \<noteq> DestinationIDHeader"
  shows "grpcStep E conv (k, listVal) (tp, ts, gtb, md) =
    Inr (tp, ts, gtb,
         MD_Append E md
           (if conv \<and> isPermanentHTTPHeader k then DaprHeaderPrefix @ lower E k else lower E k)
           (if HasSuffix k gRPCBinaryMetadataSuffix then decodedValues listVal else listVal))"
  using assms by (simp add: Let_def appendDecoded_eq)

lemma grpcStep_keeps:
  assumes "grpcStep E conv e (tp, ts, gtb, md) = Inr (tp', ts', gtb', md')"
      and "carries md key vs"
  shows "carries md' key vs"
proof -
  obtain k listVal where e: "e = (k, listVal)" by (cases e)
  show ?thesis
    using assms unfolding e
    by (auto simp add: Let_def appendDecoded_eq MD_Append_carries_keep
        split: if_splits list.splits)
qed

lemma grpcLoop_keeps:
  assumes "grpcLoop E conv md0 (tp, ts, gtb, md) = Inr (tp', ts', gtb', md')"
      and "carries md key vs"
  shows "carries md' key vs"
  using assms
proof (induction md0 arbitrary: tp ts gtb md)
  case Nil
  then show ?case by simp
next
  case (Cons e md0)
  from Cons.prems(1) obtain tp1 ts1 gtb1 md1 where
    step: "grpcStep E conv e (tp, ts, gtb, md) = Inr (tp1, ts1, gtb1, md1)" and
    rest: "grpcLoop E conv md0 (tp1, ts1, gtb1, md1) = Inr (tp', ts', gtb', md')"
    by (auto split: sum.splits)
  from grpcStep_keeps [OF step Cons.prems(2)] have "carries md1 key vs" .
  from Cons.IH [OF rest this] show ?case .
qed

lemma grpcLoop_append:
  "grpcLoop E conv (xs @ ys) st =
    (case grpcLoop E conv xs st of Inl p \<Rightarrow> Inl p | Inr st' \<Rightarrow> grpcLoop E conv ys st')"
  by (induction xs arbitrary: st) (simp_all split: sum.splits)

lemma grpcLoop_carries:
  assumes loop: "grpcLoop E conv (pre @ (k, listVal) # post) st = Inr (tp', ts', gtb', md')"
      and nd: "lower E k \<noteq> TraceparentHeader" "lower E k \<noteq> TracestateHeader"
        "lower E k \<noteq> GRPCTraceContextKey" "lower E k \<noteq> DestinationIDHeader"
      and ne: "(if HasSuffix k gRPCBinaryMetadataSuffix then decodedValues listVal else listVal) \<noteq> []"
  shows "carries md'
           (lower E (if conv \<and> isPermanentHTTPHeader k then DaprHeaderPrefix @ lower E k
                     else lower E k))
           (if HasSuffix k gRPCBinaryMetadataSuffix then decodedValues listVal else listVal)"
proof -
  from loop obtain st1 where
    pre: "grpcLoop E conv pre st = Inr st1" and
    rest: "grpcLoop E conv ((k, listVal) # post) st1 = Inr (tp', ts', gtb', md')"
    by (auto simp add: grpcLoop_append split: sum.splits)
  obtain tp1 ts1 gtb1 md1 where st1: "st1 = (tp1, ts1, gtb1, md1)" by (cases st1)
  let ?key = "if conv \<and> isPermanentHTTPHeader k then DaprHeaderPrefix @ lower E k else lower E k"
  let ?vals = "if HasSuffix k gRPCBinaryMetadataSuffix then decodedValues listVal else listVal"
  have step: "grpcStep E conv (k, listVal) (tp1, ts1, gtb1, md1)
      = Inr (tp1, ts1, gtb1, MD_Append E md1 ?key ?vals)"
    using nd by (rule grpcStep_copy)
  from rest have post: "grpcLoop E conv post (tp1, ts1, gtb1, MD_Append E md1 ?key ?vals)
      = Inr (tp', ts', gtb', md')"
    unfolding st1 by (simp only: grpcLoop.simps step sum.case)
  have "carries (MD_Append E md1 ?key ?vals) (lower E ?key) ?vals"
    using ne by (rule MD_Append_carries_new)
  from grpcLoop_keeps [OF post this] show ?thesis .
qed

lemma InternalMetadataToGrpcMetadata_other_keys:
  assumes "InternalMetadataToGrpcMetadata E ctx md conv = Inr out"
  shows "\<exists>tp ts gtb m.
    grpcLoop E conv md ([], [], [], Map.empty) = Inr (tp, ts, gtb, m) \<and>
    (\<forall>key. key \<noteq> TraceparentHeader \<longrightarrow> key \<noteq> TracestateHeader \<longrightarrow>
       key \<noteq> GRPCTraceContextKey \<longrightarrow> out key = m key)"
proof -
  from assms obtain tp ts gtb m where
    loop: "grpcLoop E conv md ([], [], [], Map.empty) = Inr (tp, ts, gtb, m)" and
    out: "out = processGRPCToGRPCTraceHeader E ctx m gtb
          \<or> out = processHTTPToGRPCTraceHeader E ctx m tp ts"
    by (auto simp add: InternalMetadataToGrpcMetadata_def split: sum.splits bool.splits)
  have "out key = m key"
    if "key \<noteq> TraceparentHeader" "key \<noteq> TracestateHeader" "key \<noteq> GRPCTraceContextKey" for key
    using out that by (auto simp add: processGRPCToGRPC_other processHTTPToGRPC_other)
  with loop show ?thesis by blast
qed

lemma bridge_carries:
  assumes res: "InternalMetadataToGrpcMetadata E ctx (pre @ (k, listVal) # post) conv = Inr out"
      and nd: "lower E k \<noteq> TraceparentHeader" "lower E k \<noteq> TracestateHeader"
        "lower E k \<noteq> GRPCTraceContextKey" "lower E k \<noteq> DestinationIDHeader"
      and ne: "(if HasSuffix k gRPCBinaryMetadataSuffix then decodedValues listVal else listVal) \<noteq> []"
      and key: "key = lower E (if conv \<and> isPermanentHTTPHeader k then DaprHeaderPrefix @ lower E k
                     else lower E k)"
      and nt: "key \<noteq> TraceparentHeader" "key \<noteq> TracestateHeader" "key \<noteq> GRPCTraceContextKey"
  shows "carries out key
           (if HasSuffix k gRPCBinaryMetadataSuffix then decodedValues listVal else listVal)"
proof -
  from res obtain tp ts gtb m where
    loop: "grpcLoop E conv (pre @ (k, listVal) # post) ([], [], [], Map.empty) = Inr (tp, ts, gtb, m)" and
    same: "\<forall>key. key \<noteq> TraceparentHeader \<longrightarrow> key \<noteq> TracestateHeader \<longrightarrow>
       key \<noteq> GRPCTraceContextKey \<longrightarrow> out key = m key"
    using InternalMetadataToGrpcMetadata_other_keys [OF res] by (elim exE conjE)
  have "carries m key
           (if HasSuffix k gRPCBinaryMetadataSuffix then decodedValues listVal else listVal)"
    unfolding key using loop nd ne by (rule grpcLoop_carries)
  then show ?thesis
    using same nt by (simp add: carries_def)
qed

lemma carries_mono: "carries md key vs \<Longrightarrow> set us \<subseteq> set vs \<Longrightarrow> carries md key us"
  by (auto simp add: carries_def)

lemma grpcStep_drop_invalid:
  assumes "lower E k \<noteq> TraceparentHeader" "lower E k \<noteq> TracestateHeader"
    "lower E k \<noteq> GRPCTraceContextKey" "HasSuffix k gRPCBinaryMetadataSuffix"
  shows "grpcStep E conv (k, filter (\<lambda>v. snd (DecodeString v)) listVal) st
       = grpcStep E conv (k, listVal) st"
  using assms by (cases st) (simp add: Let_def appendDecoded_eq decodedValues_filter)

lemma grpcLoop_drop_invalid:
  assumes "lower E k \<noteq> TraceparentHeader" "lower E k \<noteq> TracestateHeader"
    "lower E k \<noteq> GRPCTraceContextKey" "HasSuffix k gRPCBinaryMetadataSuffix"
  shows "grpcLoop E conv (pre @ (k, filter (\<lambda>v. snd (DecodeString v)) listVal) # post) st
       = grpcLoop E conv (pre @ (k, listVal) # post) st"
  by (simp add: grpcLoop_append grpcStep_drop_invalid [OF assms] split: sum.splits)

lemma IsGRPCProtocol_other_entry:
  assumes "k \<noteq> ContentTypeHeader"
  shows "IsGRPCProtocol (pre @ (k, x) # post) = IsGRPCProtocol (pre @ (k, y) # post)"
  using assms by (simp add: IsGRPCProtocol_def map_of_append map_add_def split: option.splits)

lemma single_entry_result:
  assumes nd: "lower E k \<noteq> TraceparentHeader" "lower E k \<noteq> TracestateHeader"
        "lower E k \<noteq> GRPCTraceContextKey" "lower E k \<noteq> DestinationIDHeader"
      and ok: "listVal \<noteq> [] \<or> k \<noteq> ContentTypeHeader"
  shows "\<exists>out. InternalMetadataToGrpcMetadata E ctx [(k, listVal)] conv = Inr out \<and>
    (\<forall>key. key \<noteq> TraceparentHeader \<longrightarrow> key \<noteq> TracestateHeader \<longrightarrow>
       key \<noteq> GRPCTraceContextKey \<longrightarrow>
       out key =
         MD_Append E Map.empty
           (if conv \<and> isPermanentHTTPHeader k then DaprHeaderPrefix @ lower E k else lower E k)
           (if HasSuffix k gRPCBinaryMetadataSuffix then decodedValues listVal else listVal) key)"
proof -
  have "\<not> (\<exists>p. InternalMetadataToGrpcMetadata E ctx [(k, listVal)] conv = Inl p)"
    using nd ok by (auto simp add: InternalMetadataToGrpcMetadata_panic_iff)
  then obtain out where out: "InternalMetadataToGrpcMetadata E ctx [(k, listVal)] conv = Inr out"
    by (meson sum.exhaust)
  from InternalMetadataToGrpcMetadata_other_keys [OF out] obtain tp ts gtb m where
    loop: "grpcLoop E conv [(k, listVal)] ([], [], [], Map.empty) = Inr (tp, ts, gtb, m)" and
    same: "\<forall>key. key \<noteq> TraceparentHeader \<longrightarrow> key \<noteq> TracestateHeader \<longrightarrow>
       key \<noteq> GRPCTraceContextKey \<longrightarrow> out key = m key"
    by (elim exE conjE)
  have "m = MD_Append E Map.empty
           (if conv \<and> isPermanentHTTPHeader k then DaprHeaderPrefix @ lower E k else lower E k)
           (if HasSuffix k gRPCBinaryMetadataSuffix then decodedValues listVal else listVal)"
    using loop by (simp only: grpcLoop.simps grpcStep_copy [OF nd] sum.case) simp
  with out same show ?thesis by blast
qed

text \<open>
  For an ASCII key that ends in \<^verbatim>\<open>-bin\<close> the only reserved key in question is the
  trace key: such a key is diverted only if it lower-cases to \<^verbatim>\<open>grpc-trace-bin\<close>.
\<close>

lemma ascii_bin_key:
  assumes "isASCII k" and "HasSuffix k gRPCBinaryMetadataSuffix"
      and "lower E k \<noteq> GRPCTraceContextKey"
  shows "lower E k \<notin> {TraceparentHeader, TracestateHeader, GRPCTraceContextKey,
                        DestinationIDHeader}"
    and "lower E (lower E k) = lower E k"
  using bin_key_not_diverted [OF assms(1,2), of E] assms(3) lower_idem [OF assms(1), of E]
  by simp_all

text \<open>
  C5, as the code has it: for a key that ends in \<^verbatim>\<open>-bin\<close> and is not diverted by the
  loop's switch (its lower-cased form is none of \<^verbatim>\<open>traceparent\<close>, \<^verbatim>\<open>tracestate\<close>,
  \<^verbatim>\<open>grpc-trace-bin\<close>, \<^verbatim>\<open>destination-app-id\<close>), lower-casing being idempotent on it,
  \<^item> the values that are not valid base64 are dropped without a trace: the bridge
    returns what it returns with those values removed from the input (so they never
    make it fail);
  \<^item> the decoded form of each value that is valid base64 is among the values of the
    lower-cased key in the result, so a value \<open>EncodeToString b\<close> yields \<open>b\<close>;
  \<^item> and for metadata with that one entry the key holds exactly the decoded valid
    values, in order (no key when there is none).
\<close>

theorem C5_binary_values_decoded:
  assumes "HasSuffix k gRPCBinaryMetadataSuffix"
      and "lower E k \<notin> {TraceparentHeader, TracestateHeader, GRPCTraceContextKey,
                          DestinationIDHeader}"
      and "lower E (lower E k) = lower E k"
  shows "InternalMetadataToGrpcMetadata E ctx
           (pre @ (k, filter (\<lambda>v. snd (DecodeString v)) listVal) # post) conv
         = InternalMetadataToGrpcMetadata E ctx (pre @ (k, listVal) # post) conv
       \<and> (\<forall>out. InternalMetadataToGrpcMetadata E ctx (pre @ (k, listVal) # post) conv = Inr out
             \<longrightarrow> (\<forall>v \<in> set listVal. snd (DecodeString v)
                     \<longrightarrow> carries out (lower E k) [fst (DecodeString v)])
               \<and> (\<forall>b. EncodeToString b \<in> set listVal \<longrightarrow> carries out (lower E k) [b]))
       \<and> (\<exists>out. InternalMetadataToGrpcMetadata E ctx [(k, listVal)] conv = Inr out
             \<and> out (lower E k) =
                 (if decodedValues listVal = [] then None else Some (decodedValues listVal)))"
proof -
  have nd: "lower E k \<noteq> TraceparentHeader" "lower E k \<noteq> TracestateHeader"
        "lower E k \<noteq> GRPCTraceContextKey" "lower E k \<noteq> DestinationIDHeader"
    using assms(2) by simp_all
  have np: "\<not> isPermanentHTTPHeader k" and nc: "k \<noteq> ContentTypeHeader"
    using bin_key_plain [OF assms(1)] by simp_all
  have key: "lower E (if conv \<and> isPermanentHTTPHeader k then DaprHeaderPrefix @ lower E k
                     else lower E k) = lower E k"
    using np assms(3) by simp
  have vals: "(if HasSuffix k gRPCBinaryMetadataSuffix then decodedValues listVal else listVal)
      = decodedValues listVal"
    using assms(1) by simp
  have drop: "InternalMetadataToGrpcMetadata E ctx
           (pre @ (k, filter (\<lambda>v. snd (DecodeString v)) listVal) # post) conv
         = InternalMetadataToGrpcMetadata E ctx (pre @ (k, listVal) # post) conv"
    unfolding InternalMetadataToGrpcMetadata_def
    by (simp only: grpcLoop_drop_invalid [OF nd(1,2,3) assms(1)]
          IsGRPCProtocol_other_entry
            [OF nc, of pre "filter (\<lambda>v. snd (DecodeString v)) listVal" post listVal])
  have app: "carries out (lower E k) [x]"
    if res: "InternalMetadataToGrpcMetadata E ctx (pre @ (k, listVal) # post) conv = Inr out"
      and x: "x \<in> set (decodedValues listVal)" for out x
  proof -
    have ne: "(if HasSuffix k gRPCBinaryMetadataSuffix then decodedValues listVal else listVal) \<noteq> []"
      using x vals by auto
    have "carries out (lower E k)
        (if HasSuffix k gRPCBinaryMetadataSuffix then decodedValues listVal else listVal)"
      using res nd ne key [symmetric] nd(1,2,3) by (rule bridge_carries)
    then show ?thesis
      using x vals by (auto intro: carries_mono)
  qed
  have one: "\<exists>out. InternalMetadataToGrpcMetadata E ctx [(k, listVal)] conv = Inr out
             \<and> out (lower E k) =
                 (if decodedValues listVal = [] then None else Some (decodedValues listVal))"
  proof -
    from single_entry_result [OF nd, where listVal = listVal and ctx = ctx and conv = conv] nc
    obtain out where
      out: "InternalMetadataToGrpcMetadata E ctx [(k, listVal)] conv = Inr out" and
      same: "\<forall>key. key \<noteq> TraceparentHeader \<longrightarrow> key \<noteq> TracestateHeader \<longrightarrow>
       key \<noteq> GRPCTraceContextKey \<longrightarrow>
       out key =
         MD_Append E Map.empty
           (if conv \<and> isPermanentHTTPHeader k then DaprHeaderPrefix @ lower E k else lower E k)
           (if HasSuffix k gRPCBinaryMetadataSuffix then decodedValues listVal else listVal) key"
      by blast
    have "out (lower E k) = MD_Append E Map.empty (lower E k) (decodedValues listVal) (lower E k)"
      using same nd(1,2,3) np assms(1) by simp
    then have "out (lower E k) =
                 (if decodedValues listVal = [] then None else Some (decodedValues listVal))"
      using assms(3) by (simp add: MD_Append_def Let_def)
    with out show ?thesis by blast
  qed
  show ?thesis
    using drop app one decodedValues_mem decodedValues_encoded by blast
qed

theorem C5_witness:
  "\<exists>out. InternalMetadataToGrpcMetadata sampleEnv sampleCtx
            [(''x-bin'', [''aGVsbG8='', ''!!'', EncodeToString ''hi''])] False = Inr out
        \<and> out ''x-bin'' = Some [''hello'', ''hi'']"
proof -
  have e: "EncodeToString ''hi'' = ''aGk=''"
    by (simp add: encodeByte_def encodeStd_def padChar_def)
  have d: "decodedValues [''aGVsbG8='', ''!!'', ''aGk=''] = [''hello'', ''hi'']"
    by (simp add: decodedValues_def b64_eval)
  have h1: "HasSuffix ''x-bin'' gRPCBinaryMetadataSuffix"
    by (simp add: HasSuffix_def key_defs)
  have l: "lower sampleEnv ''x-bin'' = ''x-bin''"
    by (simp add: lower_defs)
  have h2: "lower sampleEnv ''x-bin'' \<notin> {TraceparentHeader, TracestateHeader,
      GRPCTraceContextKey, DestinationIDHeader}"
    by (simp add: l key_defs)
  have h3: "lower sampleEnv (lower sampleEnv ''x-bin'') = lower sampleEnv ''x-bin''"
    by (simp add: l)
  show ?thesis
    unfolding e
    using C5_binary_values_decoded [OF h1 h2 h3, of sampleCtx "[]"
        "[''aGVsbG8='', ''!!'', ''aGk='']" "[]" False]
    by (simp add: d l)
qed

text \<open>
  C5 as stated fails for the key \<^verbatim>\<open>grpc-trace-bin\<close>, which ends in \<^verbatim>\<open>-bin\<close> and is
  diverted to trace propagation: of its values \<open>EncodeToString ''a''\<close> and
  \<open>EncodeToString ''b''\<close> only the first is read, and \<open>''b''\<close> is not in the result.
\<close>

theorem C5_counterexample:
  "InternalMetadataToGrpcMetadata sampleEnv sampleCtx
     [(''content-type'', [''application/grpc'']),
      (''grpc-trace-bin'', [EncodeToString ''a'', EncodeToString ''b''])] False
   = Inr [''content-type'' \<mapsto> [''application/grpc''], ''grpc-trace-bin'' \<mapsto> [''a'']]"
proof -
  have e: "EncodeToString ''a'' = ''YQ==''" "EncodeToString ''b'' = ''Yg==''"
    by (simp_all add: encodeByte_def encodeStd_def padChar_def)
  have d: "DecodeString ''YQ=='' = (''a'', True)"
    by (simp add: b64_eval)
  show ?thesis
    unfolding e by (simp add: bridge_eval d)
qed

text \<open>
  C8: with \<^verbatim>\<open>httpHeaderConversion\<close> set, the values of a key that is exactly one of the
  permanent header names are in the result under \<^verbatim>\<open>dapr-\<close> followed by the lower-cased
  key; the values of a key that is not one of the names (and is neither diverted nor a
  \<^verbatim>\<open>-bin\<close> key, lower-casing being idempotent on it) are under the lower-cased key.
  For metadata with that one entry the other of the two keys is absent: \<^verbatim>\<open>Accept\<close>
  gives \<^verbatim>\<open>dapr-accept\<close> and no \<^verbatim>\<open>accept\<close>, \<^verbatim>\<open>accept\<close> gives \<^verbatim>\<open>accept\<close> and no
  \<^verbatim>\<open>dapr-accept\<close>.
\<close>

theorem C8_permanent_header_prefix:
  assumes "listVal \<noteq> []"
  shows "(\<forall>out. InternalMetadataToGrpcMetadata E ctx (pre @ (k, listVal) # post) True = Inr out
            \<longrightarrow> (isPermanentHTTPHeader k
                    \<longrightarrow> carries out (DaprHeaderPrefix @ lower E k) listVal)
              \<and> (\<not> isPermanentHTTPHeader k \<and> lower E (lower E k) = lower E k
                  \<and> lower E k \<notin> {TraceparentHeader, TracestateHeader, GRPCTraceContextKey,
                                   DestinationIDHeader}
                  \<and> \<not> HasSuffix k gRPCBinaryMetadataSuffix
                    \<longrightarrow> carries out (lower E k) listVal))
       \<and> (isPermanentHTTPHeader k
            \<longrightarrow> (\<exists>out. InternalMetadataToGrpcMetadata E ctx [(k, listVal)] True = Inr out
                    \<and> out (DaprHeaderPrefix @ lower E k) = Some listVal
                    \<and> out (lower E k) = None))
       \<and> (\<not> isPermanentHTTPHeader k \<and> lower E (lower E k) = lower E k
            \<and> lower E k \<notin> {TraceparentHeader, TracestateHeader, GRPCTraceContextKey,
                             DestinationIDHeader}
            \<and> \<not> HasSuffix k gRPCBinaryMetadataSuffix
            \<longrightarrow> (\<exists>out. InternalMetadataToGrpcMetadata E ctx [(k, listVal)] True = Inr out
                    \<and> out (lower E k) = Some listVal
                    \<and> out (DaprHeaderPrefix @ lower E k) = None))"
proof -
  have neq: "DaprHeaderPrefix @ lower E k \<noteq> lower E k"
    by (simp add: key_defs)
  have perm_carries: "carries out (DaprHeaderPrefix @ lower E k) listVal"
    if res: "InternalMetadataToGrpcMetadata E ctx (pre @ (k, listVal) # post) True = Inr out"
      and p: "isPermanentHTTPHeader k" for out
  proof -
    note f = permanent_header_not_diverted [OF p, of E]
    note g = permanent_header_plain [OF p]
    have key: "DaprHeaderPrefix @ lower E k
        = lower E (if True \<and> isPermanentHTTPHeader k then DaprHeaderPrefix @ lower E k
                     else lower E k)"
      using p g(1) by (simp add: lower_dapr_prefix)
    have ne: "(if HasSuffix k gRPCBinaryMetadataSuffix then decodedValues listVal else listVal) \<noteq> []"
      using g(2) assms by simp
    have "carries out (DaprHeaderPrefix @ lower E k)
        (if HasSuffix k gRPCBinaryMetadataSuffix then decodedValues listVal else listVal)"
      using res f ne key dapr_key_not_trace by (rule bridge_carries)
    then show ?thesis using g(2) by simp
  qed
  have plain_carries: "carries out (lower E k) listVal"
    if res: "InternalMetadataToGrpcMetadata E ctx (pre @ (k, listVal) # post) True = Inr out"
      and p: "\<not> isPermanentHTTPHeader k" and a: "lower E (lower E k) = lower E k"
      and nd: "lower E k \<noteq> TraceparentHeader" "lower E k \<noteq> TracestateHeader"
        "lower E k \<noteq> GRPCTraceContextKey" "lower E k \<noteq> DestinationIDHeader"
      and nb: "\<not> HasSuffix k gRPCBinaryMetadataSuffix" for out
  proof -
    have key: "lower E k
        = lower E (if True \<and> isPermanentHTTPHeader k then DaprHeaderPrefix @ lower E k
                     else lower E k)"
      using p a by simp
    have ne: "(if HasSuffix k gRPCBinaryMetadataSuffix then decodedValues listVal else listVal) \<noteq> []"
      using nb assms by simp
    have "carries out (lower E k)
        (if HasSuffix k gRPCBinaryMetadataSuffix then decodedValues listVal else listVal)"
      using res nd ne key nd(1,2,3) by (rule bridge_carries)
    then show ?thesis using nb by simp
  qed
  have perm_one: "\<exists>out. InternalMetadataToGrpcMetadata E ctx [(k, listVal)] True = Inr out
                    \<and> out (DaprHeaderPrefix @ lower E k) = Some listVal
                    \<and> out (lower E k) = None"
    if p: "isPermanentHTTPHeader k"
  proof -
    note f = permanent_header_not_diverted [OF p, of E]
    note g = permanent_header_plain [OF p]
    from single_entry_result [OF f, where listVal = listVal and ctx = ctx and conv = True] assms
    obtain out where
      out: "InternalMetadataToGrpcMetadata E ctx [(k, listVal)] True = Inr out" and
      same: "\<forall>key. key \<noteq> TraceparentHeader \<longrightarrow> key \<noteq> TracestateHeader \<longrightarrow>
       key \<noteq> GRPCTraceContextKey \<longrightarrow>
       out key =
         MD_Append E Map.empty
           (if True \<and> isPermanentHTTPHeader k then DaprHeaderPrefix @ lower E k else lower E k)
           (if HasSuffix k gRPCBinaryMetadataSuffix then decodedValues listVal else listVal) key"
      by blast
    have m: "\<And>key. key \<noteq> TraceparentHeader \<Longrightarrow> key \<noteq> TracestateHeader \<Longrightarrow>
       key \<noteq> GRPCTraceContextKey \<Longrightarrow>
       out key = (if key = DaprHeaderPrefix @ lower E k then Some listVal else None)"
      using same p g assms by (simp add: MD_Append_def Let_def lower_dapr_prefix)
    have "out (DaprHeaderPrefix @ lower E k) = Some listVal"
      using m [OF dapr_key_not_trace] by simp
    moreover have "out (lower E k) = None"
      using m [OF f(1,2,3)] neq by simp
    ultimately show ?thesis using out by blast
  qed
  have plain_one: "\<exists>out. InternalMetadataToGrpcMetadata E ctx [(k, listVal)] True = Inr out
                    \<and> out (lower E k) = Some listVal
                    \<and> out (DaprHeaderPrefix @ lower E k) = None"
    if p: "\<not> isPermanentHTTPHeader k" and a: "lower E (lower E k) = lower E k"
      and nd: "lower E k \<noteq> TraceparentHeader" "lower E k \<noteq> TracestateHeader"
        "lower E k \<noteq> GRPCTraceContextKey" "lower E k \<noteq> DestinationIDHeader"
      and nb: "\<not> HasSuffix k gRPCBinaryMetadataSuffix"
  proof -
    from single_entry_result [OF nd, where listVal = listVal and ctx = ctx and conv = True] assms
    obtain out where
      out: "InternalMetadataToGrpcMetadata E ctx [(k, listVal)] True = Inr out" and
      same: "\<forall>key. key \<noteq> TraceparentHeader \<longrightarrow> key \<noteq> TracestateHeader \<longrightarrow>
       key \<noteq> GRPCTraceContextKey \<longrightarrow>
       out key =
         MD_Append E Map.empty
           (if True \<and> isPermanentHTTPHeader k then DaprHeaderPrefix @ lower E k else lower E k)
           (if HasSuffix k gRPCBinaryMetadataSuffix then decodedValues listVal else listVal) key"
      by blast
    have m: "\<And>key. key \<noteq> TraceparentHeader \<Longrightarrow> key \<noteq> TracestateHeader \<Longrightarrow>
       key \<noteq> GRPCTraceContextKey \<Longrightarrow>
       out key = (if key = lower E k then Some listVal else None)"
      using same p a nb assms by (simp add: MD_Append_def Let_def)
    have "out (lower E k) = Some listVal"
      using m [OF nd(1,2,3)] by simp
    moreover have "out (DaprHeaderPrefix @ lower E k) = None"
      using m [OF dapr_key_not_trace] neq by simp
    ultimately show ?thesis using out by blast
  qed
  show ?thesis
    using perm_carries plain_carries perm_one plain_one by blast
qed

theorem C8_witness:
  "(\<exists>out. InternalMetadataToGrpcMetadata sampleEnv sampleCtx [(''Accept'', [''text/html''])] True
           = Inr out
         \<and> out ''dapr-accept'' = Some [''text/html''] \<and> out ''accept'' = None)
   \<and> (\<exists>out. InternalMetadataToGrpcMetadata sampleEnv sampleCtx [(''accept'', [''text/html''])] True
           = Inr out
         \<and> out ''accept'' = Some [''text/html''] \<and> out ''dapr-accept'' = None)"
proof -
  have v: "[''text/html''] \<noteq> []" by simp
  have l: "lower sampleEnv ''Accept'' = ''accept''" "lower sampleEnv ''accept'' = ''accept''"
    by (simp_all add: lower_defs)
  have p: "isPermanentHTTPHeader ''Accept''" "\<not> isPermanentHTTPHeader ''accept''"
    by (simp_all add: isPermanentHTTPHeader_def)
  show ?thesis
    using C8_permanent_header_prefix [OF v, of sampleEnv sampleCtx "[]" "''Accept''" "[]"]
          C8_permanent_header_prefix [OF v, of sampleEnv sampleCtx "[]" "''accept''" "[]"]
    by (simp add: l p key_defs HasSuffix_def)
qed

end
